theory Spec2Isabelle
  imports Main
begin

section \<open>Data model of the job queue (src/scheduler/queue-manager.ts)\<close>

text \<open>
  Times are milliseconds since the epoch, as \<open>Date.now()\<close> and \<open>new Date(s).getTime()\<close>
  give them; the ISO strings the source stores in \<open>createdAt\<close> and \<open>nextRetry\<close> are
  produced by \<open>toISOString\<close> and read back by \<open>new Date\<close>, which keeps the
  millisecond value. The source computes on doubles; the model uses exact integers, which
  agree with them below \<open>2^53\<close>.
\<close>

type_synonym time = int

datatype priority = High | Medium | Low

datatype job_status = Pending | Processing | Completed | Failed

text \<open>
  Values of type \<open>any\<close> (a job's data, the data of a handler's response): the ones the
  queue manager builds itself are constructors, the others are opaque.
\<close>

datatype payload = Null | Opaque string | CleanupReport nat nat

record QueueJob =
  id_job :: string
  type_job :: string
  priority :: priority
  data :: payload
  createdAt :: time
  attempts :: nat
  maxAttempts :: int
  nextRetry :: "time option"
  status :: job_status
  error :: "string option"

text \<open>\<open>ApiResponse<T>\<close> as \<open>createApiResponse\<close> (src/utils/helpers.ts) builds it.\<close>

record 'a ApiResponse =
  successful :: bool
  message :: string
  data_resp :: "'a option"
  error_resp :: "string option"

definition createApiResponse :: "bool \<Rightarrow> string \<Rightarrow> 'a option \<Rightarrow> string option \<Rightarrow> 'a ApiResponse" where
  "createApiResponse ok msg d err =
     \<lparr>successful = ok, message = msg, data_resp = d, error_resp = err\<rparr>"

text \<open>The second argument of \<open>addJob\<close>; \<open>maxAttempts\<close> is optional.\<close>

record JobData =
  jd_type :: string
  jd_priority :: priority
  jd_data :: payload
  jd_maxAttempts :: "int option"

text \<open>
  Job objects are shared by reference: \<open>processQueue\<close> keeps \<open>nextJob\<close> across its
  \<open>await\<close> while \<open>this.queue\<close> may be spliced, filtered or replaced. The model keeps the
  objects in a store (\<open>heap\<close>, addresses are naturals, \<open>allocated\<close> is the next free
  address) and the array \<open>this.queue\<close> as the list of their addresses; in every state
  that the operations produce from the new queue manager, the addresses of the queue are
  distinct and below \<open>allocated\<close>. \<open>processingInterval\<close> tells whether the 30 second
  interval is armed.
\<close>

type_synonym ref = nat

record QueueManagerService =
  heap :: "ref \<Rightarrow> QueueJob"
  queue :: "ref list"
  isProcessing :: bool
  processingInterval :: bool
  allocated :: nat

text \<open>What the job handlers get from outside the queue manager when they run.\<close>

datatype 'a outcome = Returns 'a | Throws string

record externals =
  processCommitsAndPost :: "payload ApiResponse outcome"
  healthCheckResults :: payload
  createBackup :: "payload ApiResponse outcome"

section \<open>Operations of QueueManagerService\<close>

text \<open>An object literal for a job that is not in use (the content of unallocated cells).\<close>

definition blankJob :: QueueJob where
  "blankJob = \<lparr>id_job = [], type_job = [], priority = Low, data = Null, createdAt = 0,
     attempts = 0, maxAttempts = 0, nextRetry = None, status = Completed, error = None\<rparr>"

definition newQueueManager :: QueueManagerService where
  "newQueueManager = \<lparr>heap = (\<lambda>_. blankJob), queue = [], isProcessing = False,
     processingInterval = False, allocated = 0\<rparr>"

text \<open>The queue as the list of its job objects.\<close>

definition jobs_of :: "QueueManagerService \<Rightarrow> QueueJob list" where
  "jobs_of s = map (heap s) (queue s)"

fun priorityOrder :: "priority \<Rightarrow> nat" where
  "priorityOrder High = 3"
| "priorityOrder Medium = 2"
| "priorityOrder Low = 1"

text \<open>The loop of \<open>findInsertPosition\<close> (lines 396-403), from index \<open>i\<close> on.\<close>

fun findInsertPosition_loop :: "(ref \<Rightarrow> QueueJob) \<Rightarrow> nat \<Rightarrow> ref list \<Rightarrow> nat \<Rightarrow> nat" where
  "findInsertPosition_loop h jobPriority [] i = i"
| "findInsertPosition_loop h jobPriority (r # rest) i =
     (if jobPriority > priorityOrder (priority (h r)) then i
      else findInsertPosition_loop h jobPriority rest (Suc i))"

definition findInsertPosition :: "priority \<Rightarrow> QueueManagerService \<Rightarrow> nat" where
  "findInsertPosition p s = findInsertPosition_loop (heap s) (priorityOrder p) (queue s) 0"

text \<open>
  \<open>addJob\<close> (lines 99-139). \<open>gid\<close> is what \<open>generateId()\<close> returns and \<open>now\<close> the clock.
  The third component of the result tells whether \<open>setImmediate\<close> scheduled a call of
  \<open>processQueue\<close>. Nothing in the \<open>try\<close> block throws, so the \<open>catch\<close> has no branch.
  \<open>jobData.maxAttempts || 3\<close> is 3 when the field is absent or 0.
\<close>

definition addJob ::
  "string \<Rightarrow> time \<Rightarrow> string \<Rightarrow> JobData \<Rightarrow> QueueManagerService
     \<Rightarrow> QueueManagerService \<times> string ApiResponse \<times> bool" where
  "addJob gid now type jobData s =
     (let job = \<lparr>id_job = gid, type_job = type, priority = jd_priority jobData,
                 data = jd_data jobData, createdAt = now, attempts = 0,
                 maxAttempts = (case jd_maxAttempts jobData of None \<Rightarrow> 3
                                | Some m \<Rightarrow> if m = 0 then 3 else m),
                 nextRetry = None, status = Pending, error = None\<rparr>;
          insertIndex = findInsertPosition (priority job) s;
          r = allocated s
      in (s\<lparr>heap := (heap s)(r := job),
            queue := take insertIndex (queue s) @ [r] @ drop insertIndex (queue s),
            allocated := Suc r\<rparr>,
          createApiResponse True ''Job added to queue'' (Some (id_job job)) None,
          priority job = High \<and> isProcessing s))"

record QueueStatus =
  totalJobs :: nat
  pendingJobs :: nat
  processingJobs :: nat
  completedJobs :: nat
  failedJobs :: nat
  isProcessing_status :: bool

definition getQueueStatus :: "QueueManagerService \<Rightarrow> QueueStatus" where
  "getQueueStatus s =
     \<lparr>totalJobs = length (queue s),
      pendingJobs = length (filter (\<lambda>r. status (heap s r) = Pending) (queue s)),
      processingJobs = length (filter (\<lambda>r. status (heap s r) = Processing) (queue s)),
      completedJobs = length (filter (\<lambda>r. status (heap s r) = Completed) (queue s)),
      failedJobs = length (filter (\<lambda>r. status (heap s r) = Failed) (queue s)),
      isProcessing_status = isProcessing s\<rparr>"

text \<open>The callback of \<open>this.queue.find\<close> in \<open>processQueue\<close> (lines 171-174).\<close>

definition eligible :: "time \<Rightarrow> QueueJob \<Rightarrow> bool" where
  "eligible now job \<longleftrightarrow>
     status job = Pending \<and> (case nextRetry job of None \<Rightarrow> True | Some t \<Rightarrow> t \<le> now)"

text \<open>
  \<open>processQueue\<close> up to its \<open>await\<close> (lines 166-188): the guard, the choice of
  \<open>nextJob\<close> and its marking. The result holds the address of \<open>nextJob\<close>, if any.
  The source reads the clock for each job it looks at; here the scan has one time \<open>now\<close>.
\<close>

definition processQueue_select ::
  "time \<Rightarrow> QueueManagerService \<Rightarrow> QueueManagerService \<times> ref option" where
  "processQueue_select now s =
     (if \<not> isProcessing s \<or> length (queue s) = 0 then (s, None)
      else case find (\<lambda>r. eligible now (heap s r)) (queue s) of
             None \<Rightarrow> (s, None)
           | Some r \<Rightarrow>
               (s\<lparr>heap := (heap s)(r := (heap s r)\<lparr>status := Processing,
                                                   attempts := attempts (heap s r) + 1\<rparr>)\<rparr>,
                Some r))"

definition executeMainPostingJob :: "externals \<Rightarrow> payload ApiResponse" where
  "executeMainPostingJob ext =
     (case processCommitsAndPost ext of
        Returns result \<Rightarrow> result
      | Throws errMsg \<Rightarrow> createApiResponse False ''Main posting job failed'' (Some Null) (Some errMsg))"

definition executeHealthCheckJob :: "externals \<Rightarrow> payload ApiResponse" where
  "executeHealthCheckJob ext =
     createApiResponse True ''Health check completed'' (Some (healthCheckResults ext)) None"

text \<open>\<open>executeCleanupJob\<close> (lines 302-334) drops the finished jobs older than 7 days.\<close>

definition executeCleanupJob ::
  "time \<Rightarrow> QueueManagerService \<Rightarrow> QueueManagerService \<times> payload ApiResponse" where
  "executeCleanupJob now s =
     (let oldJobs = filter (\<lambda>r. (status (heap s r) = Completed \<or> status (heap s r) = Failed)
                               \<and> createdAt (heap s r) < now - 7 * 24 * 60 * 60 * 1000) (queue s)
      in (s\<lparr>queue := filter (\<lambda>r. r \<notin> set oldJobs) (queue s)\<rparr>,
          createApiResponse True ''Cleanup completed''
            (Some (CleanupReport 3 (length oldJobs))) None))"

definition executeBackupJob :: "externals \<Rightarrow> payload ApiResponse" where
  "executeBackupJob ext =
     (case createBackup ext of
        Returns backupResult \<Rightarrow> backupResult
      | Throws errMsg \<Rightarrow> createApiResponse False ''Backup job failed'' (Some Null) (Some errMsg))"

text \<open>\<open>executeJob\<close> (lines 211-228): the switch over the job's type.\<close>

definition executeJob ::
  "externals \<Rightarrow> time \<Rightarrow> ref \<Rightarrow> QueueManagerService
     \<Rightarrow> QueueManagerService \<times> payload ApiResponse" where
  "executeJob ext now r s =
     (let ty = type_job (heap s r) in
      if ty = ''main-posting'' then (s, executeMainPostingJob ext)
      else if ty = ''health-check'' then (s, executeHealthCheckJob ext)
      else if ty = ''cleanup'' then executeCleanupJob now s
      else if ty = ''backup'' then (s, executeBackupJob ext)
      else (s, createApiResponse False (''Unknown job type: '' @ ty) (Some Null)
                 (Some ''Job type not supported'')))"

text \<open>The job types with a case of their own in the switch of \<open>executeJob\<close>.\<close>

definition hasHandler :: "string \<Rightarrow> bool" where
  "hasHandler ty \<longleftrightarrow>
     ty = ''main-posting'' \<or> ty = ''health-check'' \<or> ty = ''cleanup'' \<or> ty = ''backup''"

text \<open>
  \<open>handleJobFailure\<close> (lines 362-387) on the job object at \<open>r\<close>, for the calls that
  return; \<open>handleJobFailure_throws\<close> below says which calls do not.
\<close>

definition handleJobFailure ::
  "time \<Rightarrow> ref \<Rightarrow> string \<Rightarrow> QueueManagerService \<Rightarrow> QueueManagerService" where
  "handleJobFailure now r err s =
     (let job = (heap s r)\<lparr>error := Some err\<rparr> in
      if int (attempts job) \<ge> maxAttempts job
      then s\<lparr>heap := (heap s)(r := job\<lparr>status := Failed\<rparr>)\<rparr>
      else let delay = 2 ^ attempts job * 60 * 1000
           in s\<lparr>heap := (heap s)(r := job\<lparr>status := Pending, nextRetry := Some (now + delay)\<rparr>)\<rparr>)"

text \<open>
  In the retry branch, \<open>new Date(Date.now() + delay).toISOString()\<close> (line 377) throws
  \<open>RangeError\<close> when the retry time is outside the range of \<open>Date\<close>, which is
  8.64e15 ms on either side of the epoch. With a clock of today this is the 38th failed
  attempt of a job, and every later one. The \<open>catch\<close> of \<open>processQueue\<close> (line 199)
  then calls \<open>handleJobFailure\<close> once more, which throws again, and the call of
  \<open>processQueue\<close> rejects before its retention pass.
\<close>

definition validDate :: "time \<Rightarrow> bool" where
  "validDate t \<longleftrightarrow> \<bar>t\<bar> \<le> 8640000000000000"

definition handleJobFailure_throws :: "time \<Rightarrow> ref \<Rightarrow> QueueManagerService \<Rightarrow> bool" where
  "handleJobFailure_throws now r s \<longleftrightarrow>
     int (attempts (heap s r)) < maxAttempts (heap s r)
     \<and> \<not> validDate (now + 2 ^ attempts (heap s r) * 60 * 1000)"

text \<open>
  \<open>cleanupOldJobs\<close> (lines 409-430); \<open>retained\<close> is the callback of its
  \<open>filter\<close> (lines 416-421). \<open>Array.prototype.sort\<close> is stable, and so is
  \<open>sort_key\<close>; the comparator orders by \<open>createdAt\<close>, newest first.
\<close>

definition retained :: "time \<Rightarrow> QueueJob \<Rightarrow> bool" where
  "retained now job \<longleftrightarrow>
     status job = Pending \<or>
     status job = Processing \<or>
     status job = Failed \<or>
     (status job = Completed \<and> createdAt job > now - 24 * 60 * 60 * 1000)"

definition cleanupOldJobs :: "time \<Rightarrow> QueueManagerService \<Rightarrow> QueueManagerService" where
  "cleanupOldJobs now s =
     (let maxJobs = 100 in
      if length (queue s) \<le> maxJobs then s
      else let jobsToKeep = filter (\<lambda>r. retained now (heap s r)) (queue s)
           in if length jobsToKeep > maxJobs
              then s\<lparr>queue := take maxJobs (sort_key (\<lambda>r. - createdAt (heap s r)) jobsToKeep)\<rparr>
              else s\<lparr>queue := jobsToKeep\<rparr>)"

text \<open>
  \<open>processQueue\<close> after its \<open>await\<close> (lines 193-205): the result of the handler is
  recorded on \<open>nextJob\<close>, then the retention pass runs. \<open>result.error || 'Unknown error'\<close>
  replaces an absent or empty message.
\<close>

definition processQueue_settle ::
  "time \<Rightarrow> ref \<Rightarrow> payload ApiResponse \<Rightarrow> QueueManagerService \<Rightarrow> QueueManagerService" where
  "processQueue_settle now r result s =
     cleanupOldJobs now
       (if successful result
        then s\<lparr>heap := (heap s)(r := (heap s r)\<lparr>status := Completed\<rparr>)\<rparr>
        else handleJobFailure now r
               (case error_resp result of None \<Rightarrow> ''Unknown error''
                | Some e \<Rightarrow> if e = [] then ''Unknown error'' else e) s)"

text \<open>
  One whole call of \<open>processQueue\<close> with nothing else running during its \<open>await\<close>:
  \<open>now\<close> is the clock when it starts, \<open>fin\<close> the clock when the handler has returned.
\<close>

definition processQueue ::
  "externals \<Rightarrow> time \<Rightarrow> time \<Rightarrow> QueueManagerService \<Rightarrow> QueueManagerService" where
  "processQueue ext now fin s =
     (case processQueue_select now s of
        (s1, None) \<Rightarrow> s1
      | (s1, Some r) \<Rightarrow>
          (case executeJob ext now r s1 of (s2, result) \<Rightarrow> processQueue_settle fin r result s2))"

definition getJob :: "string \<Rightarrow> QueueManagerService \<Rightarrow> QueueJob option" where
  "getJob jobId s = map_option (heap s) (find (\<lambda>r. id_job (heap s r) = jobId) (queue s))"

text \<open>\<open>cancelJob\<close> (lines 452-471).\<close>

definition cancelJob ::
  "string \<Rightarrow> QueueManagerService \<Rightarrow> QueueManagerService \<times> bool ApiResponse" where
  "cancelJob jobId s =
     (case find (\<lambda>r. id_job (heap s r) = jobId) (queue s) of
        None \<Rightarrow> (s, createApiResponse False ''Job not found'' (Some False)
                      (Some ''Job ID does not exist''))
      | Some r \<Rightarrow>
          if status (heap s r) = Processing
          then (s, createApiResponse False ''Cannot cancel processing job'' (Some False)
                     (Some ''Job is currently being processed''))
          else if status (heap s r) = Completed \<or> status (heap s r) = Failed
          then (s, createApiResponse False ''Job already finished'' (Some False)
                     (Some ''Job has already completed or failed''))
          else (s\<lparr>queue := filter (\<lambda>q. id_job (heap s q) \<noteq> jobId) (queue s)\<rparr>,
                createApiResponse True ''Job cancelled successfully'' (Some True) None))"

text \<open>
  \<open>start\<close> (lines 45-71) and \<open>stop\<close> (lines 76-94). \<open>start\<close> arms the interval and calls
  \<open>processQueue\<close> once; here that call runs to its end before \<open>start\<close> returns.
\<close>

definition start ::
  "externals \<Rightarrow> time \<Rightarrow> time \<Rightarrow> QueueManagerService \<Rightarrow> QueueManagerService \<times> bool ApiResponse" where
  "start ext now fin s =
     (if isProcessing s then (s, createApiResponse True ''Queue manager already running'' (Some True) None)
      else (processQueue ext now fin (s\<lparr>isProcessing := True, processingInterval := True\<rparr>),
            createApiResponse True ''Queue manager started'' (Some True) None))"

definition stop :: "QueueManagerService \<Rightarrow> QueueManagerService \<times> bool ApiResponse" where
  "stop s = (s\<lparr>processingInterval := False, isProcessing := False\<rparr>,
             createApiResponse True ''Queue manager stopped'' (Some True) None)"

section \<open>Interleaved calls of processQueue\<close>

text \<open>
  A call of \<open>processQueue\<close> is suspended at \<open>await this.executeJob(nextJob)\<close> while the
  handler's promise is pending; the interval, \<open>setImmediate\<close> callbacks and the callers of
  \<open>addJob\<close> and \<open>cancelJob\<close> run meanwhile. A world is the queue manager together with the
  suspended calls: for each, the address of its \<open>nextJob\<close> and the response its handler
  will give. \<open>executeJob\<close> changes the queue only in \<open>executeCleanupJob\<close>, which has no
  \<open>await\<close> and so runs with the selection; the handlers of the other types touch nothing
  of the queue manager. Every step the source can take is a step of \<open>reachable\<close> (which
  lets \<open>processQueue\<close> be called at any moment, and the flags be set at any moment).
\<close>

record World =
  mgr :: QueueManagerService
  inflight :: "(ref \<times> payload ApiResponse) list"

inductive reachable :: "World \<Rightarrow> bool" where
  init: "reachable \<lparr>mgr = newQueueManager, inflight = []\<rparr>"
| enqueue: "reachable w \<Longrightarrow> reachable (w\<lparr>mgr := fst (addJob gid now ty jobData (mgr w))\<rparr>)"
| cancel: "reachable w \<Longrightarrow> reachable (w\<lparr>mgr := fst (cancelJob jobId (mgr w))\<rparr>)"
| started: "reachable w \<Longrightarrow>
     reachable (w\<lparr>mgr := (mgr w)\<lparr>isProcessing := True, processingInterval := True\<rparr>\<rparr>)"
| stopped: "reachable w \<Longrightarrow>
     reachable (w\<lparr>mgr := (mgr w)\<lparr>processingInterval := False, isProcessing := False\<rparr>\<rparr>)"
| wake: "reachable w \<Longrightarrow> processQueue_select now (mgr w) = (s1, Some r) \<Longrightarrow>
     executeJob ext now r s1 = (s2, result) \<Longrightarrow>
     reachable \<lparr>mgr = s2, inflight = (r, result) # inflight w\<rparr>"
| settle: "reachable w \<Longrightarrow> (r, result) \<in> set (inflight w) \<Longrightarrow>
     reachable \<lparr>mgr = processQueue_settle fin r result (mgr w),
                inflight = remove1 (r, result) (inflight w)\<rparr>"

section \<open>The cron service (src/scheduler/cron-jobs.ts)\<close>

text \<open>
  A task of node-cron is kept as its pattern and whether it was started. node-cron is not
  part of the repository: \<open>cron.validate\<close> is the parameter \<open>validate\<close>. \<open>runNow\<close> is
  \<open>process.env.RUN_NOW === 'true'\<close>, and \<open>runNowTimers\<close> counts the 5 second timeouts
  that \<open>scheduleMainJob\<close> has set.
\<close>

record ScheduledTask =
  pattern :: string
  task_started :: bool

record JobInfo =
  name :: string
  schedule :: string
  task :: "ScheduledTask option"
  lastRun :: "time option"

record CronJobsService =
  jobs :: "string \<Rightarrow> JobInfo option"
  isRunning :: bool
  runNowTimers :: nat

definition newCronJobs :: CronJobsService where
  "newCronJobs = \<lparr>jobs = (\<lambda>_. None), isRunning = False, runNowTimers = 0\<rparr>"

text \<open>\<open>initializeJobs\<close> (lines 133-148); \<open>cronSchedule\<close> is \<open>config.app.cronSchedule\<close>.\<close>

definition initializeJobs :: "string \<Rightarrow> CronJobsService \<Rightarrow> CronJobsService" where
  "initializeJobs cronSchedule cs =
     cs\<lparr>jobs := fold (\<lambda>(n, sch) m. m(n \<mapsto> \<lparr>name = n, schedule = sch, task = None, lastRun = None\<rparr>))
                   [(''main-posting'', cronSchedule), (''backup'', ''0 2 * * *''),
                    (''health-check'', ''0 */6 * * *''), (''cleanup'', ''0 3 * * 0'')]
                   (jobs cs)\<rparr>"

text \<open>\<open>scheduleMainJob\<close> (lines 163-208).\<close>

definition scheduleMainJob :: "(string \<Rightarrow> bool) \<Rightarrow> bool \<Rightarrow> CronJobsService \<Rightarrow> CronJobsService" where
  "scheduleMainJob validate runNow cs =
     (case jobs cs ''main-posting'' of
        None \<Rightarrow> cs
      | Some jobInfo \<Rightarrow>
          let cs1 = (if runNow then cs\<lparr>runNowTimers := runNowTimers cs + 1\<rparr> else cs) in
          if \<not> validate (schedule jobInfo) then cs1
          else cs1\<lparr>jobs := (jobs cs1)(''main-posting'' \<mapsto>
                     jobInfo\<lparr>task := Some \<lparr>pattern = schedule jobInfo, task_started = True\<rparr>\<rparr>)\<rparr>)"

text \<open>
  The callback that \<open>scheduleMainJob\<close> gives to \<open>cron.schedule\<close> (lines 186-199), run at
  each firing of the main schedule: it acts on the cron service and on the queue manager.
\<close>

definition mainJobFired ::
  "string \<Rightarrow> time \<Rightarrow> CronJobsService \<times> QueueManagerService
     \<Rightarrow> (CronJobsService \<times> QueueManagerService) \<times> bool" where
  "mainJobFired gid now st =
     (case st of (cs, qs) \<Rightarrow>
        let cs1 = (case jobs cs ''main-posting'' of
                     None \<Rightarrow> cs
                   | Some jobInfo \<Rightarrow> cs\<lparr>jobs := (jobs cs)(''main-posting'' \<mapsto> jobInfo\<lparr>lastRun := Some now\<rparr>)\<rparr>)
        in (case addJob gid now ''main-posting''
                   \<lparr>jd_type = ''main-posting'', jd_priority = High, jd_data = Opaque ''{}'',
                    jd_maxAttempts = None\<rparr> qs of
              (qs1, resp, wakes) \<Rightarrow> ((cs1, qs1), wakes)))"

text \<open>\<open>triggerMainJob\<close> (lines 307-323): it acts on the queue manager only.\<close>

definition triggerMainJob ::
  "string \<Rightarrow> time \<Rightarrow> QueueManagerService \<Rightarrow> QueueManagerService \<times> bool ApiResponse \<times> bool" where
  "triggerMainJob gid now qs =
     (case addJob gid now ''main-posting-manual''
             \<lparr>jd_type = ''main-posting'', jd_priority = High, jd_data = Opaque ''{ manual: true }'',
              jd_maxAttempts = None\<rparr> qs of
        (qs1, resp, wakes) \<Rightarrow>
          (qs1, createApiResponse True ''Main job triggered manually'' (Some True) None, wakes))"

text \<open>\<open>updateMainSchedule\<close> (lines 328-358).\<close>

definition updateMainSchedule ::
  "(string \<Rightarrow> bool) \<Rightarrow> bool \<Rightarrow> string \<Rightarrow> CronJobsService \<Rightarrow> CronJobsService \<times> bool ApiResponse" where
  "updateMainSchedule validate runNow newSchedule cs =
     (if \<not> validate newSchedule
      then (cs, createApiResponse False ''Invalid cron schedule'' (Some False)
                  (Some ''Schedule format is invalid''))
      else case jobs cs ''main-posting'' of
             None \<Rightarrow> (cs, createApiResponse False ''Main job not found'' (Some False)
                            (Some ''Job not initialized''))
           | Some jobInfo \<Rightarrow>
               (scheduleMainJob validate runNow
                  (cs\<lparr>jobs := (jobs cs)(''main-posting'' \<mapsto> jobInfo\<lparr>task := None, schedule := newSchedule\<rparr>)\<rparr>),
                createApiResponse True ''Schedule updated successfully'' (Some True) None))"

section \<open>Example states\<close>

text \<open>Job ids for the examples: \<open>job-\<close>, \<open>job-i\<close>, \<open>job-ii\<close>, ...\<close>

definition jobName :: "nat \<Rightarrow> string" where
  "jobName n = ''job-'' @ replicate n (CHR ''i'')"

text \<open>A queue manager that was started on an empty queue.\<close>

definition started :: QueueManagerService where
  "started = newQueueManager\<lparr>isProcessing := True, processingInterval := True\<rparr>"

text \<open>Handlers that succeed, and handlers whose collaborators are down.\<close>

definition healthy :: externals where
  "healthy = \<lparr>processCommitsAndPost = Returns (createApiResponse True ''Processing completed'' (Some (Opaque ''{}'')) None),
     healthCheckResults = Opaque ''[]'',
     createBackup = Returns (createApiResponse True ''Backup created'' (Some (Opaque ''backup.json'')) None)\<rparr>"

definition failing :: externals where
  "failing = \<lparr>processCommitsAndPost = Returns (createApiResponse False ''Processing failed'' None (Some ''GitHub unavailable'')),
     healthCheckResults = Opaque ''[]'',
     createBackup = Throws ''disk full''\<rparr>"

text \<open>One job of each status: pending, processing, completed, failed.\<close>

definition fourJobs :: QueueManagerService where
  "fourJobs =
     \<lparr>heap = (\<lambda>r. \<lparr>id_job = jobName r, type_job = ''backup'', priority = Low, data = Opaque ''{}'',
                    createdAt = int r, attempts = (if r = 0 then 0 else 1), maxAttempts = 1,
                    nextRetry = None,
                    status = (if r = 0 then Pending else if r = 1 then Processing
                              else if r = 2 then Completed else Failed),
                    error = (if r = 3 then Some ''Backup job failed'' else None)\<rparr>),
      queue = [0, 1, 2, 3], isProcessing = True, processingInterval = True, allocated = 4\<rparr>"

text \<open>
  A burst: while the executor is stopped, two high-priority main-posting jobs are enqueued
  at times 0 and 1, then 99 low-priority ones at times 2 to 100.
\<close>

definition burstData :: "nat \<Rightarrow> JobData" where
  "burstData n = \<lparr>jd_type = ''main-posting'', jd_priority = (if n < 2 then High else Low),
     jd_data = Opaque ''{}'', jd_maxAttempts = None\<rparr>"

definition burstJob :: "nat \<Rightarrow> QueueJob" where
  "burstJob n = \<lparr>id_job = jobName n, type_job = ''main-posting'',
     priority = (if n < 2 then High else Low), data = Opaque ''{}'', createdAt = int n,
     attempts = 0, maxAttempts = 3, nextRetry = None, status = Pending, error = None\<rparr>"

definition burstOf :: "nat \<Rightarrow> QueueManagerService" where
  "burstOf k = \<lparr>heap = (\<lambda>r. if r < k then burstJob r else blankJob), queue = [0..<k],
     isProcessing = False, processingInterval = False, allocated = k\<rparr>"

definition burst :: QueueManagerService where
  "burst = burstOf 101"

text \<open>
  One main-posting job with \<open>maxAttempts = 3\<close> on a started queue manager, and the states
  after one, two and three calls of \<open>processQueue\<close> whose handler fails: the calls start at
  1000, 200000 and 500000 ms and their handlers return one second later.
\<close>

definition oneJob :: QueueManagerService where
  "oneJob = fst (addJob (jobName 0) 0 ''main-posting''
     \<lparr>jd_type = ''main-posting'', jd_priority = High, jd_data = Opaque ''{}'', jd_maxAttempts = Some 3\<rparr> started)"

definition retry1 :: QueueManagerService where
  "retry1 = processQueue failing 1000 2000 oneJob"

definition retry2 :: QueueManagerService where
  "retry2 = processQueue failing 200000 201000 retry1"

definition retry3 :: QueueManagerService where
  "retry3 = processQueue failing 500000 501000 retry2"

text \<open>
  One job of a type that \<open>executeJob\<close> does not know, with the default \<open>maxAttempts\<close>, and
  the states after one and two calls of \<open>processQueue\<close>.
\<close>

definition unknownQueued :: QueueManagerService where
  "unknownQueued = fst (addJob (jobName 0) 0 ''unknown-type''
     \<lparr>jd_type = ''unknown-type'', jd_priority = Medium, jd_data = Opaque ''{}'', jd_maxAttempts = None\<rparr> started)"

definition unknown1 :: QueueManagerService where
  "unknown1 = processQueue failing 1000 2000 unknownQueued"

definition unknown2 :: QueueManagerService where
  "unknown2 = processQueue failing 200000 201000 unknown1"

text \<open>
  A stand-in for \<open>cron.validate\<close> that accepts two well-formed patterns, and the cron
  service after \<open>initializeJobs\<close> and \<open>scheduleMainJob\<close> with the schedule \<open>0 9 * * *\<close>.
\<close>

definition exampleValidate :: "string \<Rightarrow> bool" where
  "exampleValidate e \<longleftrightarrow> e = ''0 9 * * *'' \<or> e = ''*/5 * * * *''"

definition cronStarted :: CronJobsService where
  "cronStarted = (scheduleMainJob exampleValidate False (initializeJobs ''0 9 * * *'' newCronJobs))\<lparr>isRunning := True\<rparr>"

text \<open>
  The burst as the calls of \<open>addJob\<close> that build it; the burst once \<open>start\<close> has set
  its flags; the queue manager after \<open>start\<close> was called at time 101 and the handler of
  the first job returned with success at 102; and, when that handler fails instead, the
  queue manager after \<open>handleJobFailure\<close>, right before the retention pass.
\<close>

definition burstAdd :: "nat \<Rightarrow> QueueManagerService \<Rightarrow> QueueManagerService" where
  "burstAdd n s = fst (addJob (jobName n) (int n) ''main-posting'' (burstData n) s)"

definition burstStarted :: QueueManagerService where
  "burstStarted = burst\<lparr>isProcessing := True, processingInterval := True\<rparr>"

definition afterBurst :: QueueManagerService where
  "afterBurst = fst (start healthy 101 102 burst)"



text \<open>
  Two firings of the main schedule on a started queue manager, at times 1 and 2, each with
  its \<open>setImmediate\<close> call of \<open>processQueue\<close>: the first call, at time 3, is suspended at
  its \<open>await\<close> when the second runs, at time 4.
\<close>

definition postingData :: JobData where
  "postingData = \<lparr>jd_type = ''main-posting'', jd_priority = High, jd_data = Opaque ''{}'',
     jd_maxAttempts = None\<rparr>"

definition twoQueued :: QueueManagerService where
  "twoQueued = fst (addJob (jobName 1) 2 ''main-posting'' postingData
                 (fst (addJob (jobName 0) 1 ''main-posting'' postingData started)))"

definition firstWake :: QueueManagerService where
  "firstWake = fst (processQueue_select 3 twoQueued)"

definition secondWake :: QueueManagerService where
  "secondWake = fst (processQueue_select 4 firstWake)"

definition oneInFlight :: World where
  "oneInFlight = \<lparr>mgr = firstWake, inflight = [(0, executeMainPostingJob healthy)]\<rparr>"

definition twoInFlight :: World where
  "twoInFlight = \<lparr>mgr = secondWake,
     inflight = [(1, executeMainPostingJob healthy), (0, executeMainPostingJob healthy)]\<rparr>"

section \<open>The order of the queue\<close>

text \<open>
  The weight of the job at an address, and the order that \<open>findInsertPosition\<close> relies
  on: weights never increase along the queue.
\<close>

definition weight :: "QueueManagerService \<Rightarrow> ref \<Rightarrow> nat" where
  "weight s r = priorityOrder (priority (heap s r))"

definition weightOrdered :: "QueueManagerService \<Rightarrow> bool" where
  "weightOrdered s \<longleftrightarrow> sorted_wrt (\<lambda>a b. weight s b \<le> weight s a) (queue s)"

section \<open>Helper lemmas\<close>

lemma jobName_eq: "jobName m = jobName n \<longleftrightarrow> m = n"
  by (simp add: jobName_def)

lemma cleanupOldJobs_length: "length (queue (cleanupOldJobs now s)) \<le> 100"
  by (simp add: cleanupOldJobs_def Let_def)

lemma cleanupOldJobs_heap: "heap (cleanupOldJobs now s) = heap s"
  by (simp add: cleanupOldJobs_def Let_def)

lemma cleanupOldJobs_small: "length (queue s) \<le> 100 \<Longrightarrow> cleanupOldJobs now s = s"
  by (simp add: cleanupOldJobs_def Let_def)

lemma cleanupOldJobs_flags: "isProcessing (cleanupOldJobs now s) = isProcessing s"
  by (simp add: cleanupOldJobs_def Let_def)

lemma cleanupOldJobs_queue:
  "set (queue (cleanupOldJobs now s)) \<subseteq> set (queue s)"
  "distinct (queue s) \<Longrightarrow> distinct (queue (cleanupOldJobs now s))"
  by (auto simp: cleanupOldJobs_def Let_def dest: in_set_takeD)

lemma find_first:
  assumes "i < length xs" "P (xs ! i)" "\<forall>j < i. \<not> P (xs ! j)"
  shows "find P xs = Some (xs ! i)"
  using assms unfolding find_Some_iff by blast

lemma find_Some_holds: "find P xs = Some r \<Longrightarrow> P r \<and> r \<in> set xs"
  by (metis find_Some_iff nth_mem)

lemma find_filter_remove1:
  "distinct (map f xs) \<Longrightarrow> find (\<lambda>x. f x = k) xs = Some r \<Longrightarrow>
   filter (\<lambda>x. f x \<noteq> k) xs = remove1 r xs"
proof (induction xs)
  case Nil
  then show ?case by simp
next
  case (Cons a xs)
  show ?case
  proof (cases "f a = k")
    case True
    with Cons.prems have "r = a" by simp
    moreover from Cons.prems(1) True have "\<forall>x \<in> set xs. f x \<noteq> k" by (auto simp: image_iff)
    then have "filter (\<lambda>x. f x \<noteq> k) xs = xs" by (simp add: filter_id_conv)
    ultimately show ?thesis using True by simp
  next
    case False
    with Cons.prems have "find (\<lambda>x. f x = k) xs = Some r" "distinct (map f xs)" by auto
    with Cons.IH have "filter (\<lambda>x. f x \<noteq> k) xs = remove1 r xs" by simp
    moreover from \<open>find (\<lambda>x. f x = k) xs = Some r\<close> have "f r = k"
      by (metis (mono_tags, lifting) find_Some_iff)
    ultimately show ?thesis using False by auto
  qed
qed

lemma fourJobs_ids: "distinct (map (\<lambda>r. id_job (heap fourJobs r)) (queue fourJobs))"
  by (simp add: fourJobs_def jobName_eq)

section \<open>Cancelling a job\<close>

text \<open>
  Claim C6. Job ids are unique (\<open>generateId\<close>). Then \<open>cancelJob\<close> on an unknown id
  answers "Job not found" and changes nothing; on a processing job it answers "Cannot
  cancel processing job" and changes nothing; on a completed or failed job it answers
  "Job already finished" and changes nothing; on a pending job it succeeds, removes
  exactly that job from the queue, and \<open>getJob\<close> then finds nothing under the id.
\<close>

theorem cancelJob_by_status:
  assumes ids: "distinct (map (\<lambda>r. id_job (heap s r)) (queue s))"
  shows "(getJob jobId s = None \<longrightarrow>
            cancelJob jobId s = (s, createApiResponse False ''Job not found'' (Some False)
                                      (Some ''Job ID does not exist'')))
       \<and> (\<forall>job. getJob jobId s = Some job \<and> status job = Processing \<longrightarrow>
            cancelJob jobId s = (s, createApiResponse False ''Cannot cancel processing job'' (Some False)
                                      (Some ''Job is currently being processed'')))
       \<and> (\<forall>job. getJob jobId s = Some job \<and> (status job = Completed \<or> status job = Failed) \<longrightarrow>
            cancelJob jobId s = (s, createApiResponse False ''Job already finished'' (Some False)
                                      (Some ''Job has already completed or failed'')))
       \<and> (\<forall>job. getJob jobId s = Some job \<and> status job = Pending \<longrightarrow>
            (\<exists>r. r \<in> set (queue s) \<and> heap s r = job \<and> id_job job = jobId \<and>
                 cancelJob jobId s = (s\<lparr>queue := remove1 r (queue s)\<rparr>,
                    createApiResponse True ''Job cancelled successfully'' (Some True) None))
            \<and> getJob jobId (fst (cancelJob jobId s)) = None)"
proof (cases "find (\<lambda>r. id_job (heap s r) = jobId) (queue s)")
  case None
  then show ?thesis by (simp add: getJob_def cancelJob_def)
next
  case (Some r)
  then have r: "id_job (heap s r) = jobId" "r \<in> set (queue s)"
    using find_Some_holds[of "\<lambda>r. id_job (heap s r) = jobId" "queue s" r] by auto
  have rm: "filter (\<lambda>q. id_job (heap s q) \<noteq> jobId) (queue s) = remove1 r (queue s)"
    using find_filter_remove1[OF ids Some] .
  have gone: "find (\<lambda>q. id_job (heap s q) = jobId)
                (filter (\<lambda>q. id_job (heap s q) \<noteq> jobId) (queue s)) = None"
    by (simp add: find_None_iff)
  show ?thesis
  proof (cases "status (heap s r)")
    case Pending
    have c: "cancelJob jobId s = (s\<lparr>queue := remove1 r (queue s)\<rparr>,
               createApiResponse True ''Job cancelled successfully'' (Some True) None)"
      using Some Pending rm by (simp add: cancelJob_def)
    have g: "getJob jobId (fst (cancelJob jobId s)) = None"
      using Some Pending gone by (simp add: cancelJob_def getJob_def)
    show ?thesis using Some Pending r c g by (auto simp: getJob_def)
  next
    case Processing
    then show ?thesis using Some by (simp add: getJob_def cancelJob_def)
  next
    case Completed
    then show ?thesis using Some by (simp add: getJob_def cancelJob_def)
  next
    case Failed
    then show ?thesis using Some by (simp add: getJob_def cancelJob_def)
  qed
qed

theorem cancelJob_by_status_witness:
  "cancelJob (jobName 0) fourJobs =
     (fourJobs\<lparr>queue := [1, 2, 3]\<rparr>,
      createApiResponse True ''Job cancelled successfully'' (Some True) None)
   \<and> getJob (jobName 0) (fst (cancelJob (jobName 0) fourJobs)) = None
   \<and> cancelJob (jobName 1) fourJobs =
       (fourJobs, createApiResponse False ''Cannot cancel processing job'' (Some False)
                    (Some ''Job is currently being processed''))
   \<and> cancelJob (jobName 2) fourJobs =
       (fourJobs, createApiResponse False ''Job already finished'' (Some False)
                    (Some ''Job has already completed or failed''))
   \<and> cancelJob (jobName 3) fourJobs =
       (fourJobs, createApiResponse False ''Job already finished'' (Some False)
                    (Some ''Job has already completed or failed''))
   \<and> cancelJob (jobName 7) fourJobs =
       (fourJobs, createApiResponse False ''Job not found'' (Some False)
                    (Some ''Job ID does not exist''))"
  using cancelJob_by_status[OF fourJobs_ids, of "jobName 0"]
        cancelJob_by_status[OF fourJobs_ids, of "jobName 1"]
        cancelJob_by_status[OF fourJobs_ids, of "jobName 2"]
        cancelJob_by_status[OF fourJobs_ids, of "jobName 3"]
        cancelJob_by_status[OF fourJobs_ids, of "jobName 7"]
  by (simp add: fourJobs_def jobName_eq getJob_def cancelJob_def)

section \<open>The retention pass\<close>

text \<open>
  Sorting newest first reverses a list whose creation times strictly increase: so the
  retention pass on a queue of 101 jobs that were enqueued one after the other, all of
  them to be kept, leaves the 100 newest, newest first.
\<close>

lemma insort_key_snoc:
  "\<forall>x \<in> set xs. f x < f a \<Longrightarrow> insort_key f a xs = xs @ [a]"
  by (induction xs) auto

lemma sort_key_newest_first:
  fixes f :: "'a \<Rightarrow> int"
  shows "sorted_wrt (\<lambda>a b. f a < f b) xs \<Longrightarrow> sort_key (\<lambda>r. - f r) xs = rev xs"
proof (induction xs)
  case Nil
  then show ?case by simp
next
  case (Cons a xs)
  then have "sort_key (\<lambda>r. - f r) xs = rev xs" by simp
  moreover from Cons.prems have "\<forall>x \<in> set (rev xs). - f x < - f a" by auto
  ultimately show ?case by (simp add: insort_key_snoc)
qed

lemma cleanup_newest_first:
  assumes q: "queue s = [0..<101]"
    and c: "\<forall>r < 101. createdAt (heap s r) = int r"
    and k: "\<forall>r < 101. retained now (heap s r)"
  shows "queue (cleanupOldJobs now s) = rev [1..<101]"
proof -
  have f: "filter (\<lambda>r. retained now (heap s r)) (queue s) = [0..<101]"
    using k by (simp add: q del: upt_rec_numeral)
  have srt: "sorted_wrt (\<lambda>a b. createdAt (heap s a) < createdAt (heap s b)) [0..<101]"
    using c by (simp add: sorted_wrt_iff_nth_less del: upt_rec_numeral)
  have "queue (cleanupOldJobs now s)
          = take 100 (sort_key (\<lambda>r. - createdAt (heap s r)) [0..<101])"
    unfolding cleanupOldJobs_def Let_def f by (simp add: q del: upt_rec_numeral)
  also have "\<dots> = take 100 (rev [0..<101])"
    using sort_key_newest_first[OF srt] by simp
  also have "\<dots> = rev [1..<101]"
    by (simp add: take_rev del: upt_rec_numeral)
  finally show ?thesis .
qed







lemma burst_find: "find (\<lambda>r. eligible now (heap burst r)) [0..<101] = Some 0"
  by (simp add: upt_rec[of 0 101] burst_def burstOf_def burstJob_def eligible_def del: upt_rec_numeral)

lemma burst_select:
  "processQueue_select 101 burstStarted =
     (burstStarted\<lparr>heap := (heap burst)(0 := (burstJob 0)\<lparr>status := Processing, attempts := 1\<rparr>)\<rparr>,
      Some 0)"
proof -
  have q: "queue burstStarted = [0..<101]" "isProcessing burstStarted" "heap burstStarted = heap burst"
    by (simp_all add: burstStarted_def burst_def burstOf_def)
  have h: "heap burst 0 = burstJob 0" by (simp add: burst_def burstOf_def)
  show ?thesis
    unfolding processQueue_select_def
    by (simp add: q burst_find h del: upt_rec_numeral) (simp add: burstJob_def)
qed











section \<open>Enqueueing\<close>

text \<open>
  Claim C10. For every type string and every job data, \<open>addJob\<close> answers with success
  and the new job's id, and puts into the queue, at the position \<open>findInsertPosition\<close>
  gives, a job with that id and type, 0 attempts, status pending and no \<open>nextRetry\<close>,
  whose \<open>maxAttempts\<close> is the caller's when that is a number other than 0, and 3 when it
  is absent or 0.
\<close>

theorem addJob_always_succeeds:
  "(let result = addJob gid now ty jobData s;
        s' = fst result;
        i = findInsertPosition (jd_priority jobData) s;
        job = heap s' (allocated s)
    in fst (snd result) = createApiResponse True ''Job added to queue'' (Some gid) None
       \<and> queue s' = take i (queue s) @ [allocated s] @ drop i (queue s)
       \<and> id_job job = gid \<and> type_job job = ty \<and> priority job = jd_priority jobData
       \<and> attempts job = 0 \<and> status job = Pending \<and> nextRetry job = None
       \<and> (\<forall>m. jd_maxAttempts jobData = Some m \<and> m \<noteq> 0 \<longrightarrow> maxAttempts job = m)
       \<and> (jd_maxAttempts jobData = None \<or> jd_maxAttempts jobData = Some 0 \<longrightarrow> maxAttempts job = 3))"
  by (auto simp: addJob_def Let_def)

theorem addJob_always_succeeds_witness:
  "maxAttempts (heap (fst (addJob (jobName 0) 7 ''backup''
       \<lparr>jd_type = ''backup'', jd_priority = Low, jd_data = Null, jd_maxAttempts = Some 5\<rparr> started)) 0) = 5
   \<and> maxAttempts (heap (fst (addJob (jobName 0) 7 ''backup''
       \<lparr>jd_type = ''backup'', jd_priority = Low, jd_data = Null, jd_maxAttempts = Some 0\<rparr> started)) 0) = 3
   \<and> successful (fst (snd (addJob (jobName 0) 7 ''backup''
       \<lparr>jd_type = ''backup'', jd_priority = Low, jd_data = Null, jd_maxAttempts = Some 0\<rparr> started)))"
  using addJob_always_succeeds[of "jobName 0" 7 "''backup''"
          "\<lparr>jd_type = ''backup'', jd_priority = Low, jd_data = Null, jd_maxAttempts = Some 5\<rparr>" started]
        addJob_always_succeeds[of "jobName 0" 7 "''backup''"
          "\<lparr>jd_type = ''backup'', jd_priority = Low, jd_data = Null, jd_maxAttempts = Some 0\<rparr>" started]
  by (simp add: Let_def started_def newQueueManager_def createApiResponse_def)

section \<open>Failed attempts and the retry policy\<close>

lemma executeJob_heap: "heap (fst (executeJob ext now r s)) = heap s"
  by (simp add: executeJob_def executeCleanupJob_def Let_def)

lemma select_Some:
  assumes "snd (processQueue_select now s) = Some r"
  shows "processQueue_select now s =
           (s\<lparr>heap := (heap s)(r := (heap s r)\<lparr>status := Processing, attempts := attempts (heap s r) + 1\<rparr>)\<rparr>, Some r)"
    and "eligible now (heap s r)" and "r \<in> set (queue s)" and "isProcessing s"
  using assms find_Some_holds[of "\<lambda>r. eligible now (heap s r)" "queue s"]
  by (auto simp: processQueue_select_def split: if_splits option.splits)

text \<open>The job object of a call of processQueue whose handler answers with a failure.\<close>

lemma failed_cycle:
  assumes sel: "snd (processQueue_select now s) = Some r"
    and bad: "\<not> successful (snd (executeJob ext now r (fst (processQueue_select now s))))"
  shows "attempts (heap (processQueue ext now fin s) r) = Suc (attempts (heap s r))"
    and "maxAttempts (heap (processQueue ext now fin s) r) = maxAttempts (heap s r)"
    and "type_job (heap (processQueue ext now fin s) r) = type_job (heap s r)"
    and "error (heap (processQueue ext now fin s) r) \<noteq> None"
    and "int (Suc (attempts (heap s r))) \<ge> maxAttempts (heap s r) \<Longrightarrow>
           status (heap (processQueue ext now fin s) r) = Failed
           \<and> nextRetry (heap (processQueue ext now fin s) r) = nextRetry (heap s r)"
    and "int (Suc (attempts (heap s r))) < maxAttempts (heap s r) \<Longrightarrow>
           status (heap (processQueue ext now fin s) r) = Pending
           \<and> nextRetry (heap (processQueue ext now fin s) r)
               = Some (fin + 2 ^ Suc (attempts (heap s r)) * 60 * 1000)"
proof -
  define s1 where "s1 = s\<lparr>heap := (heap s)(r := (heap s r)\<lparr>status := Processing, attempts := attempts (heap s r) + 1\<rparr>)\<rparr>"
  have p: "processQueue_select now s = (s1, Some r)"
    using select_Some(1)[OF sel] by (simp add: s1_def)
  obtain s2 res where e: "executeJob ext now r s1 = (s2, res)" by (cases "executeJob ext now r s1")
  have h2: "heap s2 = heap s1" using executeJob_heap[of ext now r s1] e by simp
  have nb: "\<not> successful res" using bad p e by simp
  have pq: "processQueue ext now fin s = processQueue_settle fin r res s2"
    by (simp add: processQueue_def p e)
  have hr: "heap s2 r = (heap s r)\<lparr>status := Processing, attempts := Suc (attempts (heap s r))\<rparr>"
    by (simp add: h2 s1_def)
  show "attempts (heap (processQueue ext now fin s) r) = Suc (attempts (heap s r))"
    and "maxAttempts (heap (processQueue ext now fin s) r) = maxAttempts (heap s r)"
    and "type_job (heap (processQueue ext now fin s) r) = type_job (heap s r)"
    and "error (heap (processQueue ext now fin s) r) \<noteq> None"
    and "int (Suc (attempts (heap s r))) \<ge> maxAttempts (heap s r) \<Longrightarrow>
           status (heap (processQueue ext now fin s) r) = Failed
           \<and> nextRetry (heap (processQueue ext now fin s) r) = nextRetry (heap s r)"
    and "int (Suc (attempts (heap s r))) < maxAttempts (heap s r) \<Longrightarrow>
           status (heap (processQueue ext now fin s) r) = Pending
           \<and> nextRetry (heap (processQueue ext now fin s) r)
               = Some (fin + 2 ^ Suc (attempts (heap s r)) * 60 * 1000)"
    using nb hr
    by (simp_all add: pq processQueue_settle_def cleanupOldJobs_heap handleJobFailure_def Let_def)
qed

lemma oneJob_eq:
  "oneJob = \<lparr>heap = (\<lambda>_. blankJob)(0 := \<lparr>id_job = jobName 0, type_job = ''main-posting'', priority = High,
                 data = Opaque ''{}'', createdAt = 0, attempts = 0, maxAttempts = 3, nextRetry = None,
                 status = Pending, error = None\<rparr>),
             queue = [0], isProcessing = True, processingInterval = True, allocated = 1\<rparr>"
  by (simp add: oneJob_def addJob_def Let_def started_def newQueueManager_def findInsertPosition_def)

lemma retry1_eq:
  "retry1 = oneJob\<lparr>heap := (heap oneJob)(0 := (heap oneJob 0)\<lparr>attempts := 1, nextRetry := Some 122000,
                                       error := Some ''GitHub unavailable''\<rparr>)\<rparr>"
  by (simp add: retry1_def oneJob_eq processQueue_def processQueue_select_def eligible_def executeJob_def
        executeMainPostingJob_def failing_def createApiResponse_def processQueue_settle_def
        handleJobFailure_def cleanupOldJobs_def Let_def)

lemma retry2_eq:
  "retry2 = oneJob\<lparr>heap := (heap oneJob)(0 := (heap oneJob 0)\<lparr>attempts := 2, nextRetry := Some 441000,
                                       error := Some ''GitHub unavailable''\<rparr>)\<rparr>"
  by (simp add: retry2_def retry1_eq oneJob_eq numeral_2_eq_2[symmetric] processQueue_def processQueue_select_def eligible_def executeJob_def
        executeMainPostingJob_def failing_def createApiResponse_def processQueue_settle_def
        handleJobFailure_def cleanupOldJobs_def Let_def)

lemma retry3_eq:
  "retry3 = oneJob\<lparr>heap := (heap oneJob)(0 := (heap oneJob 0)\<lparr>attempts := 3, nextRetry := Some 441000,
                                       status := Failed, error := Some ''GitHub unavailable''\<rparr>)\<rparr>"
  by (simp add: retry3_def retry2_eq oneJob_eq numeral_3_eq_3[symmetric] processQueue_def processQueue_select_def eligible_def executeJob_def
        executeMainPostingJob_def failing_def createApiResponse_def processQueue_settle_def
        handleJobFailure_def cleanupOldJobs_def Let_def)

lemma failing_always:
  "type_job (heap s r) = ''main-posting'' \<Longrightarrow> \<not> successful (snd (executeJob failing t r s))"
  by (simp add: executeJob_def executeMainPostingJob_def failing_def createApiResponse_def)

text \<open>
  Claim C3, as the source has it. A job with \<open>maxAttempts = 3\<close> whose handler fails at
  every attempt, dispatched three times: after the first and the second failed attempt it
  is pending again with \<open>nextRetry\<close> set to the time of the failure plus a delay, the
  second delay being twice the first; the third failed attempt makes it failed, not
  before, and leaves \<open>nextRetry\<close> as the second attempt set it.
\<close>

theorem backoff_until_failed:
  assumes fresh: "attempts (heap s0 r) = 0" "maxAttempts (heap s0 r) = 3"
    and fails: "\<forall>t s. type_job (heap s r) = type_job (heap s0 r) \<longrightarrow>
                  \<not> successful (snd (executeJob ext t r s))"
    and sel1: "snd (processQueue_select t1 s0) = Some r"
    and sel2: "snd (processQueue_select t2 (processQueue ext t1 u1 s0)) = Some r"
    and sel3: "snd (processQueue_select t3 (processQueue ext t2 u2 (processQueue ext t1 u1 s0))) = Some r"
  shows "\<exists>d>0.
     (let s1 = processQueue ext t1 u1 s0;
          s2 = processQueue ext t2 u2 s1;
          s3 = processQueue ext t3 u3 s2
      in status (heap s1 r) = Pending \<and> attempts (heap s1 r) = 1 \<and> nextRetry (heap s1 r) = Some (u1 + d)
       \<and> status (heap s2 r) = Pending \<and> attempts (heap s2 r) = 2 \<and> nextRetry (heap s2 r) = Some (u2 + 2 * d)
       \<and> status (heap s3 r) = Failed \<and> attempts (heap s3 r) = 3 \<and> nextRetry (heap s3 r) = nextRetry (heap s2 r))"
proof -
  define s1 where "s1 = processQueue ext t1 u1 s0"
  define s2 where "s2 = processQueue ext t2 u2 s1"
  define s3 where "s3 = processQueue ext t3 u3 s2"
  have ty0: "type_job (heap (fst (processQueue_select t1 s0)) r) = type_job (heap s0 r)"
    using select_Some(1)[OF sel1] by simp
  have bad1: "\<not> successful (snd (executeJob ext t1 r (fst (processQueue_select t1 s0))))"
    using fails ty0 by blast
  note c1 = failed_cycle[OF sel1 bad1, of u1, folded s1_def]
  have a1: "attempts (heap s1 r) = 1" "maxAttempts (heap s1 r) = 3" "type_job (heap s1 r) = type_job (heap s0 r)"
    "status (heap s1 r) = Pending" "nextRetry (heap s1 r) = Some (u1 + 120000)"
    using c1 fresh by simp_all
  have sel2': "snd (processQueue_select t2 s1) = Some r" using sel2 by (simp add: s1_def)
  have ty1: "type_job (heap (fst (processQueue_select t2 s1)) r) = type_job (heap s0 r)"
    using select_Some(1)[OF sel2'] a1 by simp
  have bad2: "\<not> successful (snd (executeJob ext t2 r (fst (processQueue_select t2 s1))))"
    using fails ty1 by blast
  note c2 = failed_cycle[OF sel2' bad2, of u2, folded s2_def]
  have a2: "attempts (heap s2 r) = 2" "maxAttempts (heap s2 r) = 3" "type_job (heap s2 r) = type_job (heap s0 r)"
    "status (heap s2 r) = Pending" "nextRetry (heap s2 r) = Some (u2 + 240000)"
    using c2 a1 by simp_all
  have sel3': "snd (processQueue_select t3 s2) = Some r" using sel3 by (simp add: s1_def s2_def)
  have ty2: "type_job (heap (fst (processQueue_select t3 s2)) r) = type_job (heap s0 r)"
    using select_Some(1)[OF sel3'] a2 by simp
  have bad3: "\<not> successful (snd (executeJob ext t3 r (fst (processQueue_select t3 s2))))"
    using fails ty2 by blast
  note c3 = failed_cycle[OF sel3' bad3, of u3, folded s3_def]
  have a3: "attempts (heap s3 r) = 3" "status (heap s3 r) = Failed" "nextRetry (heap s3 r) = nextRetry (heap s2 r)"
    using c3 a2 by simp_all
  have "(0::int) < 120000" by simp
  moreover have "status (heap s1 r) = Pending \<and> attempts (heap s1 r) = 1 \<and> nextRetry (heap s1 r) = Some (u1 + 120000)
       \<and> status (heap s2 r) = Pending \<and> attempts (heap s2 r) = 2 \<and> nextRetry (heap s2 r) = Some (u2 + 2 * 120000)
       \<and> status (heap s3 r) = Failed \<and> attempts (heap s3 r) = 3 \<and> nextRetry (heap s3 r) = nextRetry (heap s2 r)"
    using a1 a2 a3 by simp
  ultimately show ?thesis
    unfolding Let_def s1_def[symmetric] s2_def[symmetric] s3_def[symmetric] by blast
qed

theorem backoff_until_failed_witness:
  "status (heap retry1 0) = Pending \<and> status (heap retry2 0) = Pending \<and> status (heap retry3 0) = Failed
   \<and> attempts (heap retry3 0) = 3
   \<and> (\<exists>d>0. nextRetry (heap retry1 0) = Some (2000 + d) \<and> nextRetry (heap retry2 0) = Some (201000 + 2 * d))"
proof -
  have fresh: "attempts (heap oneJob 0) = 0" "maxAttempts (heap oneJob 0) = 3"
    by (simp_all add: oneJob_eq)
  have fails: "\<forall>t s. type_job (heap s 0) = type_job (heap oneJob 0) \<longrightarrow>
                  \<not> successful (snd (executeJob failing t 0 s))"
    using failing_always by (simp add: oneJob_eq)
  have sel1: "snd (processQueue_select 1000 oneJob) = Some 0"
    by (simp add: oneJob_eq processQueue_select_def eligible_def)
  have sel2: "snd (processQueue_select 200000 (processQueue failing 1000 2000 oneJob)) = Some 0"
    unfolding retry1_def[symmetric] by (simp add: retry1_eq oneJob_eq processQueue_select_def eligible_def)
  have sel3: "snd (processQueue_select 500000 (processQueue failing 200000 201000 (processQueue failing 1000 2000 oneJob))) = Some 0"
    unfolding retry1_def[symmetric] retry2_def[symmetric]
    by (simp add: retry2_eq oneJob_eq processQueue_select_def eligible_def)
  from backoff_until_failed[OF fresh fails sel1 sel2 sel3, of 501000]
  show ?thesis
    unfolding Let_def retry1_def[symmetric] retry2_def[symmetric] retry3_def[symmetric] by blast
qed

text \<open>
  Claim C3 as stated fails: the first failed attempt, handled at 2000 ms, sets
  \<open>nextRetry\<close> 120 seconds later, not 60; the second sets it 240 seconds later, not 120;
  the third makes the job failed and sets no \<open>nextRetry\<close>.
\<close>

theorem backoff_delays_counterexample:
  "maxAttempts (heap oneJob 0) = 3
   \<and> nextRetry (heap retry1 0) = Some (2000 + 120000)
   \<and> nextRetry (heap retry1 0) \<noteq> Some (2000 + 60000)
   \<and> nextRetry (heap retry2 0) = Some (201000 + 240000)
   \<and> nextRetry (heap retry2 0) \<noteq> Some (201000 + 120000)
   \<and> status (heap retry3 0) = Failed
   \<and> nextRetry (heap retry3 0) \<noteq> Some (501000 + 240000)"
  by (simp add: retry1_eq retry2_eq retry3_eq oneJob_eq)

section \<open>Jobs of a type without a handler\<close>

lemma executeJob_unknown:
  "\<not> hasHandler (type_job (heap s r)) \<Longrightarrow>
     executeJob ext now r s =
       (s, createApiResponse False (''Unknown job type: '' @ type_job (heap s r)) (Some Null)
             (Some ''Job type not supported''))"
  by (simp add: executeJob_def hasHandler_def)

lemma unknownQueued_eq:
  "unknownQueued = \<lparr>heap = (\<lambda>_. blankJob)(0 := \<lparr>id_job = jobName 0, type_job = ''unknown-type'',
                 priority = Medium, data = Opaque ''{}'', createdAt = 0, attempts = 0, maxAttempts = 3,
                 nextRetry = None, status = Pending, error = None\<rparr>),
             queue = [0], isProcessing = True, processingInterval = True, allocated = 1\<rparr>"
  by (simp add: unknownQueued_def addJob_def Let_def started_def newQueueManager_def findInsertPosition_def)

lemma unknown1_eq:
  "unknown1 = unknownQueued\<lparr>heap := (heap unknownQueued)(0 := (heap unknownQueued 0)\<lparr>attempts := 1,
       nextRetry := Some 122000, error := Some ''Job type not supported''\<rparr>)\<rparr>"
  by (simp add: unknown1_def unknownQueued_eq processQueue_def processQueue_select_def eligible_def
        executeJob_def createApiResponse_def processQueue_settle_def
        handleJobFailure_def cleanupOldJobs_def Let_def)

lemma unknown2_eq:
  "unknown2 = unknownQueued\<lparr>heap := (heap unknownQueued)(0 := (heap unknownQueued 0)\<lparr>attempts := 2,
       nextRetry := Some 441000, error := Some ''Job type not supported''\<rparr>)\<rparr>"
  by (simp add: unknown2_def unknown1_eq unknownQueued_eq numeral_2_eq_2[symmetric] processQueue_def
        processQueue_select_def eligible_def
        executeJob_def createApiResponse_def processQueue_settle_def
        handleJobFailure_def cleanupOldJobs_def Let_def)

text \<open>A call of processQueue on a job of unknown type: the queue manager afterwards.\<close>

lemma unknown_cycle:
  assumes sel: "snd (processQueue_select now s) = Some r"
    and unknown: "\<not> hasHandler (type_job (heap s r))"
  shows "processQueue ext now fin s =
           cleanupOldJobs fin (handleJobFailure fin r ''Job type not supported''
              (fst (processQueue_select now s)))"
proof -
  define s1 where "s1 = fst (processQueue_select now s)"
  have p: "processQueue_select now s = (s1, Some r)"
    using select_Some(1)[OF sel] by (simp add: s1_def)
  have ty: "type_job (heap s1 r) = type_job (heap s r)"
    using select_Some(1)[OF sel] by (simp add: s1_def)
  have e: "executeJob ext now r s1 =
             (s1, createApiResponse False (''Unknown job type: '' @ type_job (heap s r)) (Some Null)
                    (Some ''Job type not supported''))"
    using executeJob_unknown[of s1 r ext now] unknown ty by simp
  show ?thesis
    by (simp add: processQueue_def p e processQueue_settle_def createApiResponse_def flip: s1_def)
qed

lemma unknown_cycle_frame:
  assumes sel: "snd (processQueue_select now s) = Some r"
    and unknown: "\<not> hasHandler (type_job (heap s r))"
  shows "isProcessing (processQueue ext now fin s)"
    and "length (queue s) \<le> 100 \<Longrightarrow> queue (processQueue ext now fin s) = queue s"
proof -
  define s2 where "s2 = handleJobFailure fin r ''Job type not supported'' (fst (processQueue_select now s))"
  have q: "queue s2 = queue s" "isProcessing s2"
    using select_Some(1)[OF sel] select_Some(4)[OF sel]
    by (simp_all add: s2_def handleJobFailure_def Let_def)
  have pq: "processQueue ext now fin s = cleanupOldJobs fin s2"
    using unknown_cycle[OF sel unknown] by (simp add: s2_def)
  show "isProcessing (processQueue ext now fin s)"
    by (simp add: pq cleanupOldJobs_flags q)
  show "length (queue s) \<le> 100 \<Longrightarrow> queue (processQueue ext now fin s) = queue s"
    by (simp add: pq cleanupOldJobs_small q)
qed

text \<open>
  Claim C4, as the source has it. A new job whose type has no case in \<open>executeJob\<close> is
  treated like any failed job: one call of \<open>processQueue\<close> that dispatches it leaves it
  with 1 attempt and the error "Job type not supported". When its \<open>maxAttempts\<close> is at
  most 1 it is failed, its \<open>nextRetry\<close> is as before, and no call of \<open>processQueue\<close>
  on the queue manager as this call leaves it dispatches the job. Otherwise it is pending
  with a \<open>nextRetry\<close> later than the failure: no call before that time dispatches it,
  and a call at that time or later dispatches it when it is in the queue with no eligible
  job before it. It is in the queue when the queue held at most 100 jobs, which the
  retention pass of the call then leaves as it was.
\<close>

theorem unknown_type_follows_retry_policy:
  assumes sel: "snd (processQueue_select now s) = Some r"
    and unknown: "\<not> hasHandler (type_job (heap s r))"
    and fresh: "attempts (heap s r) = 0"
  shows "(let s' = processQueue ext now fin s in
          attempts (heap s' r) = 1
        \<and> error (heap s' r) = Some ''Job type not supported''
        \<and> (length (queue s) \<le> 100 \<longrightarrow> queue s' = queue s \<and> r \<in> set (queue s'))
        \<and> (maxAttempts (heap s r) \<le> 1 \<longrightarrow>
              status (heap s' r) = Failed \<and> nextRetry (heap s' r) = nextRetry (heap s r)
              \<and> (\<forall>t'. snd (processQueue_select t' s') \<noteq> Some r))
        \<and> (maxAttempts (heap s r) > 1 \<longrightarrow>
              status (heap s' r) = Pending
              \<and> (\<exists>t>fin. nextRetry (heap s' r) = Some t \<and> eligible t (heap s' r)
                   \<and> (\<forall>t' < t. snd (processQueue_select t' s') \<noteq> Some r)
                   \<and> (\<forall>t' \<ge> t. \<forall>i < length (queue s').
                         queue s' ! i = r \<and> (\<forall>j < i. \<not> eligible t' (heap s' (queue s' ! j)))
                         \<longrightarrow> snd (processQueue_select t' s') = Some r))))"
proof -
  define s' where "s' = processQueue ext now fin s"
  define s1 where "s1 = fst (processQueue_select now s)"
  have p: "processQueue_select now s = (s1, Some r)"
    using select_Some(1)[OF sel] by (simp add: s1_def)
  have ty: "type_job (heap s1 r) = type_job (heap s r)"
    using select_Some(1)[OF sel] by (simp add: s1_def)
  have e: "executeJob ext now r s1 =
             (s1, createApiResponse False (''Unknown job type: '' @ type_job (heap s r)) (Some Null)
                    (Some ''Job type not supported''))"
    using executeJob_unknown[of s1 r ext now] unknown ty by simp
  have bad: "\<not> successful (snd (executeJob ext now r (fst (processQueue_select now s))))"
    using e by (simp add: s1_def createApiResponse_def)
  note c = failed_cycle[OF sel bad, of fin, folded s'_def]
  have err: "error (heap s' r) = Some ''Job type not supported''"
    by (simp add: s'_def processQueue_def p e processQueue_settle_def createApiResponse_def
          cleanupOldJobs_heap handleJobFailure_def Let_def)
  note fr = unknown_cycle_frame[OF sel unknown, of ext fin, folded s'_def]
  have a1: "attempts (heap s' r) = 1" using c(1) fresh by simp
  have never: "\<forall>t'. snd (processQueue_select t' s') \<noteq> Some r" if "status (heap s' r) = Failed"
  proof
    fix t'
    show "snd (processQueue_select t' s') \<noteq> Some r"
    proof
      assume "snd (processQueue_select t' s') = Some r"
      from select_Some(2)[OF this] that show False by (simp add: eligible_def)
    qed
  qed
  have terminal: "status (heap s' r) = Failed \<and> nextRetry (heap s' r) = nextRetry (heap s r)
              \<and> (\<forall>t'. snd (processQueue_select t' s') \<noteq> Some r)"
    if "maxAttempts (heap s r) \<le> 1"
    using c(5) that fresh never by simp
  have retry: "status (heap s' r) = Pending
              \<and> (\<exists>t>fin. nextRetry (heap s' r) = Some t \<and> eligible t (heap s' r)
                   \<and> (\<forall>t' < t. snd (processQueue_select t' s') \<noteq> Some r)
                   \<and> (\<forall>t' \<ge> t. \<forall>i < length (queue s').
                         queue s' ! i = r \<and> (\<forall>j < i. \<not> eligible t' (heap s' (queue s' ! j)))
                         \<longrightarrow> snd (processQueue_select t' s') = Some r))"
    if m: "maxAttempts (heap s r) > 1"
  proof -
    define t where "t = fin + 2 ^ Suc 0 * 60 * 1000"
    have st: "status (heap s' r) = Pending" "nextRetry (heap s' r) = Some t"
      using c(6) m fresh by (simp_all add: t_def)
    have later: "t > fin" by (simp add: t_def)
    have early: "\<forall>t' < t. snd (processQueue_select t' s') \<noteq> Some r"
    proof (intro allI impI notI)
      fix t' assume "t' < t" "snd (processQueue_select t' s') = Some r"
      from select_Some(2)[OF this(2)] st \<open>t' < t\<close> show False by (simp add: eligible_def)
    qed
    have due: "\<forall>t' \<ge> t. \<forall>i < length (queue s').
                 queue s' ! i = r \<and> (\<forall>j < i. \<not> eligible t' (heap s' (queue s' ! j)))
                 \<longrightarrow> snd (processQueue_select t' s') = Some r"
    proof (intro allI impI)
      fix t' i
      assume t': "t \<le> t'" and i: "i < length (queue s')"
        and h: "queue s' ! i = r \<and> (\<forall>j < i. \<not> eligible t' (heap s' (queue s' ! j)))"
      have el: "eligible t' (heap s' (queue s' ! i))" using h st t' by (simp add: eligible_def)
      have "find (\<lambda>r. eligible t' (heap s' r)) (queue s') = Some (queue s' ! i)"
        using find_first[of i "queue s'" "\<lambda>r. eligible t' (heap s' r)"] i el h by blast
      moreover have "queue s' \<noteq> []" using i by auto
      ultimately show "snd (processQueue_select t' s') = Some r"
        using fr(1) h by (simp add: processQueue_select_def)
    qed
    have el: "eligible t (heap s' r)" using st by (simp add: eligible_def)
    show ?thesis using st later el early due by blast
  qed
  have stays: "queue s' = queue s \<and> r \<in> set (queue s')" if "length (queue s) \<le> 100"
    using fr(2)[OF that] select_Some(3)[OF sel] by simp
  show ?thesis
    unfolding Let_def s'_def[symmetric] using a1 err stays terminal retry by blast
qed

theorem unknown_type_follows_retry_policy_witness:
  "attempts (heap unknown1 0) = 1 \<and> status (heap unknown1 0) = Pending
   \<and> error (heap unknown1 0) = Some ''Job type not supported''
   \<and> queue unknown1 = queue unknownQueued \<and> 0 \<in> set (queue unknown1)
   \<and> nextRetry (heap unknown1 0) = Some 122000
   \<and> snd (processQueue_select 121999 unknown1) \<noteq> Some 0
   \<and> snd (processQueue_select 122000 unknown1) = Some 0
   \<and> status (heap (processQueue healthy 1000 2000 (unknownQueued\<lparr>heap := (heap unknownQueued)
          (0 := (heap unknownQueued 0)\<lparr>maxAttempts := 1\<rparr>)\<rparr>)) 0) = Failed
   \<and> snd (processQueue_select 122000 (processQueue healthy 1000 2000 (unknownQueued\<lparr>heap := (heap unknownQueued)
          (0 := (heap unknownQueued 0)\<lparr>maxAttempts := 1\<rparr>)\<rparr>))) \<noteq> Some 0"
proof -
  have sel: "snd (processQueue_select 1000 unknownQueued) = Some 0"
    by (simp add: unknownQueued_eq processQueue_select_def eligible_def)
  have un: "\<not> hasHandler (type_job (heap unknownQueued 0))" "attempts (heap unknownQueued 0) = 0"
    "maxAttempts (heap unknownQueued 0) > 1" "length (queue unknownQueued) \<le> 100"
    by (simp_all add: unknownQueued_eq hasHandler_def)
  define once where "once = unknownQueued\<lparr>heap := (heap unknownQueued)
          (0 := (heap unknownQueued 0)\<lparr>maxAttempts := 1\<rparr>)\<rparr>"
  have sel': "snd (processQueue_select 1000 once) = Some 0"
    by (simp add: once_def unknownQueued_eq processQueue_select_def eligible_def)
  have un': "\<not> hasHandler (type_job (heap once 0))" "attempts (heap once 0) = 0"
    "maxAttempts (heap once 0) \<le> 1"
    by (simp_all add: once_def unknownQueued_eq hasHandler_def)
  have nr: "nextRetry (heap unknown1 0) = Some 122000" by (simp add: unknown1_eq)
  from unknown_type_follows_retry_policy[OF sel un(1,2), of failing 2000] un(3,4)
  have first: "attempts (heap unknown1 0) = 1" "status (heap unknown1 0) = Pending"
    "error (heap unknown1 0) = Some ''Job type not supported''"
    "queue unknown1 = queue unknownQueued" "0 \<in> set (queue unknown1)"
    unfolding Let_def unknown1_def[symmetric] by blast+
  from unknown_type_follows_retry_policy[OF sel un(1,2), of failing 2000] un(3)
  obtain t where t: "nextRetry (heap unknown1 0) = Some t"
    and early: "\<forall>t' < t. snd (processQueue_select t' unknown1) \<noteq> Some 0"
    and due: "\<forall>t' \<ge> t. \<forall>i < length (queue unknown1).
                 queue unknown1 ! i = 0 \<and> (\<forall>j < i. \<not> eligible t' (heap unknown1 (queue unknown1 ! j)))
                 \<longrightarrow> snd (processQueue_select t' unknown1) = Some 0"
    unfolding Let_def unknown1_def[symmetric] by blast
  have t_eq: "t = 122000" using t nr by simp
  have q: "queue unknown1 = [0]" using first(4) by (simp add: unknownQueued_eq)
  have before: "snd (processQueue_select 121999 unknown1) \<noteq> Some 0"
    using early t_eq by simp
  have again: "snd (processQueue_select 122000 unknown1) = Some 0"
    using due[rule_format, of 122000 0] t_eq q by simp
  from unknown_type_follows_retry_policy[OF sel' un'(1,2), of healthy 2000] un'(3)
  have last: "status (heap (processQueue healthy 1000 2000 once) 0) = Failed"
    "snd (processQueue_select 122000 (processQueue healthy 1000 2000 once)) \<noteq> Some 0"
    unfolding Let_def by blast+
  show ?thesis
    using first nr before again last unfolding once_def by blast
qed

text \<open>
  Claim C4 as stated fails: with the default \<open>maxAttempts\<close> of 3 the job of an unknown
  type is pending with a \<open>nextRetry\<close> after its first dispatch, and a later call of
  \<open>processQueue\<close> dispatches it again.
\<close>

theorem unknown_type_retried_counterexample:
  "\<not> hasHandler (type_job (heap unknownQueued 0))
   \<and> status (heap unknown1 0) = Pending
   \<and> status (heap unknown1 0) \<noteq> Failed
   \<and> attempts (heap unknown1 0) = 1
   \<and> nextRetry (heap unknown1 0) = Some 122000
   \<and> snd (processQueue_select 200000 unknown1) = Some 0
   \<and> attempts (heap unknown2 0) = 2"
  by (simp add: unknown1_eq unknown2_eq unknownQueued_eq hasHandler_def processQueue_select_def eligible_def)

section \<open>The cron service: updating the schedule, triggering by hand\<close>

lemma cronStarted_main:
  "jobs cronStarted ''main-posting'' =
     Some \<lparr>name = ''main-posting'', schedule = ''0 9 * * *'',
           task = Some \<lparr>pattern = ''0 9 * * *'', task_started = True\<rparr>, lastRun = None\<rparr>"
  by (simp add: cronStarted_def scheduleMainJob_def initializeJobs_def newCronJobs_def exampleValidate_def)

text \<open>
  Claim C9. For a string that \<open>cron.validate\<close> rejects, \<open>updateMainSchedule\<close> (the only
  update operation there is, for the schedule main-posting) answers with the failure
  "Invalid cron schedule" and changes nothing of the cron service: every schedule keeps
  its pattern and its task.
\<close>

theorem updateMainSchedule_invalid_unchanged:
  "\<not> validate newSchedule \<Longrightarrow>
     updateMainSchedule validate runNow newSchedule cs =
       (cs, createApiResponse False ''Invalid cron schedule'' (Some False) (Some ''Schedule format is invalid''))
     \<and> jobs (fst (updateMainSchedule validate runNow newSchedule cs)) = jobs cs
     \<and> runNowTimers (fst (updateMainSchedule validate runNow newSchedule cs)) = runNowTimers cs"
  by (simp add: updateMainSchedule_def)

theorem updateMainSchedule_invalid_unchanged_witness:
  "\<not> exampleValidate ''not-a-cron''
   \<and> fst (updateMainSchedule exampleValidate False ''not-a-cron'' cronStarted) = cronStarted
   \<and> \<not> successful (snd (updateMainSchedule exampleValidate False ''not-a-cron'' cronStarted))
   \<and> jobs (fst (updateMainSchedule exampleValidate False ''not-a-cron'' cronStarted)) ''main-posting'' =
       Some \<lparr>name = ''main-posting'', schedule = ''0 9 * * *'',
             task = Some \<lparr>pattern = ''0 9 * * *'', task_started = True\<rparr>, lastRun = None\<rparr>"
proof -
  have bad: "\<not> exampleValidate ''not-a-cron''" by (simp add: exampleValidate_def)
  from updateMainSchedule_invalid_unchanged[of exampleValidate "''not-a-cron''" False cronStarted]
    bad cronStarted_main
  show ?thesis by (simp add: createApiResponse_def)
qed

lemma updateMainSchedule_valid_example:
  "jobs (fst (updateMainSchedule exampleValidate False ''*/5 * * * *'' cronStarted)) ''main-posting'' =
       Some \<lparr>name = ''main-posting'', schedule = ''*/5 * * * *'',
             task = Some \<lparr>pattern = ''*/5 * * * *'', task_started = True\<rparr>, lastRun = None\<rparr>"
  by (simp add: updateMainSchedule_def cronStarted_main scheduleMainJob_def exampleValidate_def)

text \<open>
  Claim C5, as the source has it. The manual trigger exists for the main schedule only.
  It enqueues at once one new job with priority high, the data \<open>{ manual: true }\<close>, no
  attempts and status pending, at the position \<open>findInsertPosition\<close> gives, wakes the
  executor when it is started, and answers with success and the value true.
\<close>

theorem triggerMainJob_enqueues_high:
  "(let result = triggerMainJob gid now qs;
        qs' = fst result;
        i = findInsertPosition High qs;
        job = heap qs' (allocated qs)
    in fst (snd result) = createApiResponse True ''Main job triggered manually'' (Some True) None
       \<and> snd (snd result) = isProcessing qs
       \<and> queue qs' = take i (queue qs) @ [allocated qs] @ drop i (queue qs)
       \<and> id_job job = gid \<and> priority job = High \<and> data job = Opaque ''{ manual: true }''
       \<and> createdAt job = now \<and> attempts job = 0 \<and> maxAttempts job = 3
       \<and> status job = Pending \<and> nextRetry job = None)"
  by (simp add: triggerMainJob_def addJob_def Let_def)

theorem triggerMainJob_enqueues_high_witness:
  "queue (fst (triggerMainJob (jobName 4) 10 fourJobs)) = [4, 0, 1, 2, 3]
   \<and> priority (heap (fst (triggerMainJob (jobName 4) 10 fourJobs)) 4) = High
   \<and> data_resp (fst (snd (triggerMainJob (jobName 4) 10 fourJobs))) = Some True"
  using triggerMainJob_enqueues_high[of "jobName 4" 10 fourJobs]
  by (simp add: Let_def createApiResponse_def findInsertPosition_def) (simp add: fourJobs_def)

text \<open>
  Claim C5 as stated fails: the job that \<open>triggerMainJob\<close> enqueues has the type
  main-posting-manual, for which \<open>executeJob\<close> has no handler, while a firing of the main
  schedule enqueues the type main-posting; and the answer holds true, not the job's id.
\<close>

theorem triggerMainJob_type_counterexample:
  "type_job (heap (fst (triggerMainJob (jobName 0) 10 started)) 0) = ''main-posting-manual''
   \<and> type_job (heap (fst (triggerMainJob (jobName 0) 10 started)) 0) \<noteq> ''main-posting''
   \<and> \<not> hasHandler (type_job (heap (fst (triggerMainJob (jobName 0) 10 started)) 0))
   \<and> type_job (heap (snd (fst (mainJobFired (jobName 0) 10 (cronStarted, started)))) 0) = ''main-posting''
   \<and> data_resp (fst (snd (triggerMainJob (jobName 0) 10 started))) = Some True
   \<and> snd (executeJob healthy 11 0 (fst (processQueue_select 11 (fst (triggerMainJob (jobName 0) 10 started)))))
       = createApiResponse False ''Unknown job type: main-posting-manual'' (Some Null)
           (Some ''Job type not supported'')"
  by (simp add: triggerMainJob_def mainJobFired_def addJob_def Let_def started_def newQueueManager_def
        hasHandler_def createApiResponse_def findInsertPosition_def processQueue_select_def
        eligible_def executeJob_def cronStarted_main)

section \<open>Overlapping calls of processQueue\<close>

lemma distinct_insert_at:
  "distinct q \<Longrightarrow> r \<notin> set q \<Longrightarrow> distinct (take i q @ [r] @ drop i q)"
proof -
  assume d: "distinct q" and n: "r \<notin> set q"
  have "set (take i q) \<inter> set (drop i q) = {}"
    using d by (metis append_take_drop_id distinct_append)
  moreover have "distinct (take i q)" "distinct (drop i q)" using d by simp_all
  moreover have "r \<notin> set (take i q)" "r \<notin> set (drop i q)"
    using n by (auto dest: in_set_takeD in_set_dropD)
  ultimately show ?thesis by auto
qed

lemma set_insert_at: "set (take i q @ [r] @ drop i q) = insert r (set q)"
proof -
  have "set (take i q) \<union> set (drop i q) = set q"
    by (metis append_take_drop_id set_append)
  then show ?thesis by auto
qed

lemma executeJob_queue:
  "set (queue (fst (executeJob ext now r s))) \<subseteq> set (queue s)"
  "distinct (queue s) \<Longrightarrow> distinct (queue (fst (executeJob ext now r s)))"
  "allocated (fst (executeJob ext now r s)) = allocated s"
  by (auto simp: executeJob_def executeCleanupJob_def Let_def)

lemma settle_heap_other:
  "r' \<noteq> r \<Longrightarrow> heap (processQueue_settle fin r result s) r' = heap s r'"
  by (simp add: processQueue_settle_def cleanupOldJobs_heap handleJobFailure_def Let_def)

lemma settle_heap_own:
  "status (heap (processQueue_settle fin r result s) r) \<noteq> Processing"
  by (simp add: processQueue_settle_def cleanupOldJobs_heap handleJobFailure_def Let_def)

lemma settle_queue:
  "set (queue (processQueue_settle fin r result s)) \<subseteq> set (queue s)"
  "distinct (queue s) \<Longrightarrow> distinct (queue (processQueue_settle fin r result s))"
  "allocated (processQueue_settle fin r result s) = allocated s"
proof -
  define s1 where "s1 = (if successful result
        then s\<lparr>heap := (heap s)(r := (heap s r)\<lparr>status := Completed\<rparr>)\<rparr>
        else handleJobFailure fin r
               (case error_resp result of None \<Rightarrow> ''Unknown error''
                | Some e \<Rightarrow> if e = [] then ''Unknown error'' else e) s)"
  have q: "queue s1 = queue s" "allocated s1 = allocated s"
    by (simp_all add: s1_def handleJobFailure_def Let_def)
  have p: "processQueue_settle fin r result s = cleanupOldJobs fin s1"
    by (simp add: processQueue_settle_def s1_def)
  show "set (queue (processQueue_settle fin r result s)) \<subseteq> set (queue s)"
    using cleanupOldJobs_queue(1)[of fin s1] by (simp add: p q)
  show "distinct (queue s) \<Longrightarrow> distinct (queue (processQueue_settle fin r result s))"
    using cleanupOldJobs_queue(2)[of s1 fin] by (simp add: p q)
  show "allocated (processQueue_settle fin r result s) = allocated s"
    by (simp add: p q cleanupOldJobs_def Let_def)
qed

lemma reachable_invariant:
  "reachable w \<Longrightarrow>
     distinct (queue (mgr w))
     \<and> (\<forall>r \<in> set (queue (mgr w)). r < allocated (mgr w))
     \<and> (\<forall>r \<in> set (queue (mgr w)). status (heap (mgr w) r) = Processing \<longrightarrow> r \<in> fst ` set (inflight w))"
proof (induction rule: reachable.induct)
  case init
  then show ?case by (simp add: newQueueManager_def)
next
  case (enqueue w gid now ty jobData)
  then have fresh: "allocated (mgr w) \<notin> set (queue (mgr w))" by auto
  define i where "i = findInsertPosition (jd_priority jobData) (mgr w)"
  define s' where "s' = fst (addJob gid now ty jobData (mgr w))"
  have q: "queue s' = take i (queue (mgr w)) @ [allocated (mgr w)] @ drop i (queue (mgr w))"
    and a: "allocated s' = Suc (allocated (mgr w))"
    and h: "\<And>r. r \<noteq> allocated (mgr w) \<Longrightarrow> heap s' r = heap (mgr w) r"
    and n: "status (heap s' (allocated (mgr w))) = Pending"
    by (simp_all add: s'_def i_def addJob_def Let_def)
  have d: "distinct (queue s')"
    unfolding q using enqueue.IH fresh by (intro distinct_insert_at) simp_all
  have m: "set (queue s') = insert (allocated (mgr w)) (set (queue (mgr w)))"
    unfolding q by (rule set_insert_at)
  have "r \<in> fst ` set (inflight w)" if "r \<in> set (queue s')" "status (heap s' r) = Processing" for r
  proof -
    from that n have "r \<noteq> allocated (mgr w)" by auto
    with that m h enqueue.IH show ?thesis by auto
  qed
  moreover have "\<forall>r \<in> set (queue s'). r < allocated s'"
    using enqueue.IH by (auto simp: m a)
  ultimately show ?case using d by (auto simp: s'_def)
next
  case (cancel w jobId)
  then show ?case
    by (auto simp: cancelJob_def split: option.splits)
next
  case (started w)
  then show ?case by simp
next
  case (stopped w)
  then show ?case by simp
next
  case (wake w now s1 r ext s2 result)
  from wake.hyps(2) have sel: "snd (processQueue_select now (mgr w)) = Some r" by simp
  have s1: "s1 = (mgr w)\<lparr>heap := (heap (mgr w))(r := (heap (mgr w) r)\<lparr>status := Processing,
                    attempts := attempts (heap (mgr w) r) + 1\<rparr>)\<rparr>"
    using select_Some(1)[OF sel] wake.hyps(2) by simp
  have s2: "s2 = fst (executeJob ext now r s1)" using wake.hyps(3) by simp
  have h2: "heap s2 = heap s1" by (simp add: s2 executeJob_heap)
  have q2: "set (queue s2) \<subseteq> set (queue (mgr w))" "distinct (queue s2)" "allocated s2 = allocated (mgr w)"
    using executeJob_queue(1)[of ext now r s1] executeJob_queue(2)[of s1 ext now r]
      executeJob_queue(3)[of ext now r s1] wake.IH
    by (simp_all add: s2) (simp_all add: s1)
  show ?case
    using wake.IH q2 by (auto simp: h2 s1)
next
  case (settle w r result fin)
  let ?s = "processQueue_settle fin r result (mgr w)"
  have q: "set (queue ?s) \<subseteq> set (queue (mgr w))" "distinct (queue ?s)" "allocated ?s = allocated (mgr w)"
    using settle_queue(1)[of fin r result "mgr w"] settle_queue(2)[of "mgr w" fin r result]
      settle_queue(3)[of fin r result "mgr w"] settle.IH
    by simp_all
  have "r' \<in> fst ` set (remove1 (r, result) (inflight w))"
    if "r' \<in> set (queue ?s)" "status (heap ?s r') = Processing" for r'
  proof -
    have ne: "r' \<noteq> r" using that(2) settle_heap_own[of fin r result "mgr w"] by auto
    then have "status (heap (mgr w) r') = Processing" using that(2) by (simp add: settle_heap_other)
    moreover have "r' \<in> set (queue (mgr w))" using that(1) q(1) by auto
    ultimately obtain x where x: "(r', x) \<in> set (inflight w)" using settle.IH by force
    then have "(r', x) \<in> set (remove1 (r, result) (inflight w))" using ne by simp
    then show ?thesis by force
  qed
  then show ?case using q settle.IH by auto
qed

lemma twoQueued_eq:
  "twoQueued = \<lparr>heap = (\<lambda>_. blankJob)
       (0 := \<lparr>id_job = jobName 0, type_job = ''main-posting'', priority = High, data = Opaque ''{}'',
               createdAt = 1, attempts = 0, maxAttempts = 3, nextRetry = None, status = Pending,
               error = None\<rparr>,
        1 := \<lparr>id_job = jobName 1, type_job = ''main-posting'', priority = High, data = Opaque ''{}'',
               createdAt = 2, attempts = 0, maxAttempts = 3, nextRetry = None, status = Pending,
               error = None\<rparr>),
     queue = [0, 1], isProcessing = True, processingInterval = True, allocated = 2\<rparr>"
  by (simp add: twoQueued_def addJob_def Let_def started_def newQueueManager_def
        findInsertPosition_def postingData_def numeral_2_eq_2)

lemma firstWake_select:
  "processQueue_select 3 twoQueued =
     (twoQueued\<lparr>heap := (heap twoQueued)(0 := (heap twoQueued 0)\<lparr>status := Processing, attempts := 1\<rparr>)\<rparr>,
      Some 0)"
  by (simp add: twoQueued_eq processQueue_select_def eligible_def)

lemma firstWake_eq:
  "firstWake = twoQueued\<lparr>heap := (heap twoQueued)(0 := (heap twoQueued 0)\<lparr>status := Processing, attempts := 1\<rparr>)\<rparr>"
  by (simp add: firstWake_def firstWake_select)

lemma secondWake_select:
  "processQueue_select 4 firstWake =
     (firstWake\<lparr>heap := (heap firstWake)(1 := (heap firstWake 1)\<lparr>status := Processing, attempts := 1\<rparr>)\<rparr>,
      Some 1)"
  by (simp add: firstWake_eq twoQueued_eq processQueue_select_def eligible_def)

lemma secondWake_eq:
  "secondWake = firstWake\<lparr>heap := (heap firstWake)(1 := (heap firstWake 1)\<lparr>status := Processing, attempts := 1\<rparr>)\<rparr>"
  by (simp add: secondWake_def secondWake_select)

lemma executeJob_main_posting:
  "type_job (heap s r) = ''main-posting'' \<Longrightarrow> executeJob ext now r s = (s, executeMainPostingJob ext)"
  by (simp add: executeJob_def)

lemma firstWake_execute:
  "executeJob healthy 3 0 firstWake = (firstWake, executeMainPostingJob healthy)"
  by (rule executeJob_main_posting) (simp add: firstWake_eq twoQueued_eq)

lemma secondWake_execute:
  "executeJob healthy 4 1 secondWake = (secondWake, executeMainPostingJob healthy)"
  by (rule executeJob_main_posting) (simp add: secondWake_eq firstWake_eq twoQueued_eq)

lemma oneInFlight_reachable: "reachable oneInFlight"
proof -
  let ?w0 = "\<lparr>mgr = newQueueManager, inflight = []\<rparr>"
  have r0: "reachable (?w0\<lparr>mgr := (mgr ?w0)\<lparr>isProcessing := True, processingInterval := True\<rparr>\<rparr>)"
    by (rule reachable.started[OF reachable.init])
  then have r1: "reachable \<lparr>mgr = started, inflight = []\<rparr>"
    by (simp add: started_def)
  have "reachable (\<lparr>mgr = started, inflight = []\<rparr>\<lparr>mgr := fst (addJob (jobName 0) 1 ''main-posting'' postingData
           (mgr \<lparr>mgr = started, inflight = []\<rparr>))\<rparr>)"
    by (rule reachable.enqueue[OF r1])
  then have r2: "reachable \<lparr>mgr = fst (addJob (jobName 0) 1 ''main-posting'' postingData started), inflight = []\<rparr>"
    by simp
  have "reachable (\<lparr>mgr = fst (addJob (jobName 0) 1 ''main-posting'' postingData started), inflight = []\<rparr>
          \<lparr>mgr := fst (addJob (jobName 1) 2 ''main-posting'' postingData
             (mgr \<lparr>mgr = fst (addJob (jobName 0) 1 ''main-posting'' postingData started), inflight = []\<rparr>))\<rparr>)"
    by (rule reachable.enqueue[OF r2])
  then have r3: "reachable \<lparr>mgr = twoQueued, inflight = []\<rparr>"
    by (simp add: twoQueued_def)
  have s1: "processQueue_select 3 (mgr \<lparr>mgr = twoQueued, inflight = []\<rparr>) = (firstWake, Some 0)"
    by (simp add: firstWake_eq firstWake_select)
  show ?thesis
    using reachable.wake[OF r3 s1 firstWake_execute] by (simp add: oneInFlight_def)
qed

lemma twoInFlight_reachable: "reachable twoInFlight"
proof -
  have s2: "processQueue_select 4 (mgr oneInFlight) = (secondWake, Some 1)"
    by (simp add: oneInFlight_def secondWake_eq secondWake_select)
  show ?thesis
    using reachable.wake[OF oneInFlight_reachable s2 secondWake_execute]
    by (simp add: twoInFlight_def oneInFlight_def)
qed

lemma twoInFlight_count: "processingJobs (getQueueStatus (mgr twoInFlight)) = 2"
  by (simp add: twoInFlight_def secondWake_eq firstWake_eq twoQueued_eq getQueueStatus_def)

lemma twoQueued_wakes:
  "snd (snd (addJob (jobName 0) 1 ''main-posting'' postingData started))"
  "snd (snd (addJob (jobName 1) 2 ''main-posting'' postingData
              (fst (addJob (jobName 0) 1 ''main-posting'' postingData started))))"
  by (simp_all add: addJob_def Let_def postingData_def started_def newQueueManager_def)

lemma oneInFlight_facts:
  "status (heap (mgr oneInFlight) 0) = Processing" "isProcessing (mgr oneInFlight)"
  "1 \<in> set (queue (mgr oneInFlight))" "eligible 4 (heap (mgr oneInFlight) 1)"
  by (simp_all add: oneInFlight_def firstWake_eq twoQueued_eq eligible_def)

text \<open>
  Claim C2, as the source has it. \<open>processQueue\<close> has no guard against running while
  another call awaits its handler: whenever the executor is started and some pending job
  is eligible, a call selects a job. So in every reachable world the number of jobs with
  status processing is at most the number of calls of \<open>processQueue\<close> that are suspended
  at their \<open>await\<close>, and it is at most one only as long as the calls do not overlap.
\<close>

theorem processing_bounded_by_inflight:
  assumes "reachable w"
  shows "processingJobs (getQueueStatus (mgr w)) \<le> length (inflight w)
       \<and> (\<forall>now. isProcessing (mgr w) \<and> (\<exists>r \<in> set (queue (mgr w)). eligible now (heap (mgr w) r))
              \<longrightarrow> snd (processQueue_select now (mgr w)) \<noteq> None)"
proof
  let ?P = "\<lambda>r. status (heap (mgr w) r) = Processing"
  from reachable_invariant[OF assms]
  have d: "distinct (queue (mgr w))"
    and p: "\<forall>r \<in> set (queue (mgr w)). ?P r \<longrightarrow> r \<in> fst ` set (inflight w)" by auto
  have "distinct (filter ?P (queue (mgr w)))" using d by simp
  then have "length (filter ?P (queue (mgr w))) = card (set (filter ?P (queue (mgr w))))"
    by (rule distinct_card[symmetric])
  also have "\<dots> \<le> card (fst ` set (inflight w))"
    using p by (intro card_mono) auto
  also have "\<dots> \<le> card (set (inflight w))" by (rule card_image_le) simp
  also have "\<dots> \<le> length (inflight w)" by (rule card_length)
  finally show "processingJobs (getQueueStatus (mgr w)) \<le> length (inflight w)"
    by (simp add: getQueueStatus_def)
next
  show "\<forall>now. isProcessing (mgr w) \<and> (\<exists>r \<in> set (queue (mgr w)). eligible now (heap (mgr w) r))
              \<longrightarrow> snd (processQueue_select now (mgr w)) \<noteq> None"
    by (auto simp: processQueue_select_def find_None_iff split: option.splits)
qed

theorem processing_bounded_by_inflight_witness:
  "processingJobs (getQueueStatus (mgr twoInFlight)) \<le> length (inflight twoInFlight)
   \<and> length (inflight twoInFlight) = 2
   \<and> snd (processQueue_select 4 (mgr oneInFlight)) \<noteq> None"
proof -
  have "length (inflight twoInFlight) = 2" by (simp add: twoInFlight_def)
  then show ?thesis
    using processing_bounded_by_inflight[OF twoInFlight_reachable]
      processing_bounded_by_inflight[OF oneInFlight_reachable] oneInFlight_facts(2,3,4)
    by blast
qed

text \<open>
  Claim C2 as stated fails. Two high-priority jobs are enqueued on a started queue manager,
  and each \<open>addJob\<close> schedules a call of \<open>processQueue\<close>. While the job of the first
  call is being processed, the second call selects the second job, and two jobs have
  status processing.
\<close>

theorem two_jobs_processing_counterexample:
  "snd (snd (addJob (jobName 0) 1 ''main-posting'' postingData started))
   \<and> snd (snd (addJob (jobName 1) 2 ''main-posting'' postingData
              (fst (addJob (jobName 0) 1 ''main-posting'' postingData started))))
   \<and> reachable oneInFlight
   \<and> status (heap (mgr oneInFlight) 0) = Processing
   \<and> processQueue_select 4 (mgr oneInFlight) = (mgr twoInFlight, Some 1)
   \<and> reachable twoInFlight
   \<and> processingJobs (getQueueStatus (mgr twoInFlight)) = 2"
proof -
  have "processQueue_select 4 (mgr oneInFlight) = (mgr twoInFlight, Some 1)"
    by (simp add: oneInFlight_def twoInFlight_def secondWake_eq secondWake_select)
  then show ?thesis
    using oneInFlight_reachable twoInFlight_reachable twoInFlight_count oneInFlight_facts(1)
      twoQueued_wakes
    by blast
qed

section \<open>Priority and first-in-first-out order\<close>

lemma findInsertPosition_loop_spec:
  "\<exists>k \<le> length q. findInsertPosition_loop h p q i = i + k
       \<and> (\<forall>j < k. \<not> p > priorityOrder (priority (h (q ! j))))
       \<and> (k < length q \<longrightarrow> p > priorityOrder (priority (h (q ! k))))"
proof (induction q arbitrary: i)
  case Nil
  then show ?case by simp
next
  case (Cons r q)
  show ?case
  proof (cases "p > priorityOrder (priority (h r))")
    case True
    then show ?thesis by (intro exI[of _ 0]) simp
  next
    case False
    from Cons.IH[of "Suc i"] obtain k where k: "k \<le> length q"
      "findInsertPosition_loop h p q (Suc i) = Suc i + k"
      "\<forall>j < k. \<not> p > priorityOrder (priority (h (q ! j)))"
      "k < length q \<longrightarrow> p > priorityOrder (priority (h (q ! k)))" by blast
    have "\<forall>j < Suc k. \<not> p > priorityOrder (priority (h ((r # q) ! j)))"
      using False k(3) by (auto simp: less_Suc_eq_0_disj)
    then show ?thesis using False k by (intro exI[of _ "Suc k"]) simp
  qed
qed

text \<open>
  Insertion: the new job goes before the first resident job of strictly lower weight, and
  to the end when there is none.
\<close>

lemma findInsertPosition_first_lower:
  "findInsertPosition p s \<le> length (queue s)
   \<and> (\<forall>j < findInsertPosition p s. priorityOrder p \<le> weight s (queue s ! j))
   \<and> (findInsertPosition p s < length (queue s) \<longrightarrow>
         weight s (queue s ! findInsertPosition p s) < priorityOrder p)"
  using findInsertPosition_loop_spec[of "queue s" "heap s" "priorityOrder p" 0]
  by (auto simp: findInsertPosition_def weight_def not_less)

text \<open>
  Selection on a queue in weight order: the job chosen has the greatest weight among the
  eligible pending jobs, and stands before every other eligible job of its weight.
\<close>

lemma select_highest_first:
  assumes ord: "weightOrdered s"
    and sel: "snd (processQueue_select now s) = Some r"
  shows "\<exists>i < length (queue s). queue s ! i = r \<and> eligible now (heap s r)
          \<and> (\<forall>j < length (queue s). eligible now (heap s (queue s ! j)) \<longrightarrow>
                 i \<le> j \<and> weight s (queue s ! j) \<le> weight s r)"
proof -
  from sel have f: "find (\<lambda>r. eligible now (heap s r)) (queue s) = Some r"
    by (auto simp: processQueue_select_def split: if_splits option.splits)
  then obtain i where i: "i < length (queue s)" "eligible now (heap s (queue s ! i))"
    "r = queue s ! i" "\<forall>j < i. \<not> eligible now (heap s (queue s ! j))"
    unfolding find_Some_iff by blast
  have "i \<le> j \<and> weight s (queue s ! j) \<le> weight s r"
    if "j < length (queue s)" "eligible now (heap s (queue s ! j))" for j
  proof -
    from that i(4) have le: "i \<le> j" by (meson not_le)
    show ?thesis
    proof (cases "i = j")
      case True
      then show ?thesis using i(3) by simp
    next
      case False
      with le have "i < j" by simp
      with ord that(1) have "weight s (queue s ! j) \<le> weight s (queue s ! i)"
        by (auto simp: weightOrdered_def sorted_wrt_iff_nth_less)
      then show ?thesis using le i(3) by simp
    qed
  qed
  then show ?thesis using i by blast
qed

text \<open>Insertion keeps the weight order, when the queue holds allocated objects only.\<close>

lemma addJob_keeps_order:
  assumes ord: "weightOrdered s" and alloc: "\<forall>r \<in> set (queue s). r < allocated s"
  shows "weightOrdered (fst (addJob gid now ty jobData s))"
proof -
  define p where "p = jd_priority jobData"
  define i where "i = findInsertPosition p s"
  define s' where "s' = fst (addJob gid now ty jobData s)"
  define n where "n = allocated s"
  have q': "queue s' = take i (queue s) @ [n] @ drop i (queue s)"
    by (simp add: s'_def i_def p_def n_def addJob_def Let_def)
  have wn: "weight s' n = priorityOrder p"
    by (simp add: s'_def p_def n_def weight_def addJob_def Let_def)
  have wo: "weight s' r = weight s r" if "r \<in> set (queue s)" for r
    using that alloc by (auto simp: s'_def weight_def addJob_def Let_def)
  note sp = findInsertPosition_first_lower[of p s, folded i_def]
  have srt: "sorted_wrt (\<lambda>a b. weight s b \<le> weight s a) (take i (queue s) @ drop i (queue s))"
    using ord by (simp add: weightOrdered_def)
  have before: "priorityOrder p \<le> weight s a" if "a \<in> set (take i (queue s))" for a
  proof -
    from that obtain j where "j < length (take i (queue s))" "take i (queue s) ! j = a"
      by (auto simp: in_set_conv_nth)
    then show ?thesis using sp by auto
  qed
  have after: "weight s b \<le> priorityOrder p" if "b \<in> set (drop i (queue s))" for b
  proof (cases "i < length (queue s)")
    case True
    then have hd: "drop i (queue s) = (queue s ! i) # drop (Suc i) (queue s)"
      by (simp add: Cons_nth_drop_Suc)
    have "sorted_wrt (\<lambda>a b. weight s b \<le> weight s a) (drop i (queue s))"
      using srt by (simp add: sorted_wrt_append)
    then have "weight s b \<le> weight s (queue s ! i)"
      using that unfolding hd by auto
    then show ?thesis using sp True by simp
  next
    case False
    then show ?thesis using that by simp
  qed
  have mem: "set (take i (queue s)) \<subseteq> set (queue s)" "set (drop i (queue s)) \<subseteq> set (queue s)"
    by (auto dest: in_set_takeD in_set_dropD)
  let ?A = "take i (queue s)" and ?B = "drop i (queue s)"
  let ?R = "\<lambda>a b. weight s b \<le> weight s a" and ?R' = "\<lambda>a b. weight s' b \<le> weight s' a"
  from srt have parts: "sorted_wrt ?R ?A" "sorted_wrt ?R ?B" "\<forall>a \<in> set ?A. \<forall>b \<in> set ?B. ?R a b"
    unfolding sorted_wrt_append by blast+
  have woA: "\<forall>r \<in> set ?A. weight s' r = weight s r" using mem(1) wo by blast
  have woB: "\<forall>r \<in> set ?B. weight s' r = weight s r" using mem(2) wo by blast
  have A': "sorted_wrt ?R' ?A"
    by (rule sorted_wrt_mono_rel[OF _ parts(1)]) (simp add: woA)
  have B': "sorted_wrt ?R' ?B"
    by (rule sorted_wrt_mono_rel[OF _ parts(2)]) (simp add: woB)
  have AB: "\<forall>a \<in> set ?A. \<forall>b \<in> set ?B. ?R' a b"
    using parts(3) by (simp add: woA woB)
  have An: "\<forall>a \<in> set ?A. ?R' a n" using before by (simp add: woA wn)
  have nB: "\<forall>b \<in> set ?B. ?R' n b" using after by (simp add: woB wn)
  have "sorted_wrt ?R' (?A @ [n] @ ?B)"
    using A' B' AB An nB by (simp add: sorted_wrt_append)
  then show ?thesis by (simp add: weightOrdered_def q' flip: s'_def)
qed

lemma findInsertPosition_loop_append:
  "\<forall>r \<in> set q. \<not> p > priorityOrder (priority (h r)) \<Longrightarrow> findInsertPosition_loop h p q i = i + length q"
  by (induction q arbitrary: i) auto

lemma burstOf_insert: "findInsertPosition (if k < 2 then High else Low) (burstOf k) = k"
proof -
  have "\<forall>r \<in> set [0..<k]. \<not> priorityOrder (if k < 2 then High else Low)
            > priorityOrder (priority (if r < k then burstJob r else blankJob))"
    by (auto simp: burstJob_def)
  then show ?thesis
    using findInsertPosition_loop_append[where q = "[0..<k]" and i = 0
        and p = "priorityOrder (if k < 2 then High else Low)"
        and h = "\<lambda>r. if r < k then burstJob r else blankJob"]
    by (simp add: findInsertPosition_def burstOf_def)
qed

lemma burstOf_Suc: "burstAdd k (burstOf k) = burstOf (Suc k)"
proof -
  have h: "(heap (burstOf k))(k := burstJob k) = heap (burstOf (Suc k))"
    by (auto simp: fun_eq_iff burstOf_def)
  have q: "queue (burstOf k) = [0..<k]" "allocated (burstOf k) = k"
    "isProcessing (burstOf k) = False" "processingInterval (burstOf k) = False"
    by (simp_all add: burstOf_def)
  have "burstAdd k (burstOf k)
        = (burstOf k)\<lparr>heap := (heap (burstOf k))(k := burstJob k), queue := [0..<k] @ [k], allocated := Suc k\<rparr>"
    unfolding burstAdd_def addJob_def Let_def
    by (simp add: burstData_def burstOf_insert q) (simp add: burstJob_def)
  also have "\<dots> = burstOf (Suc k)"
    unfolding h by (simp add: burstOf_def)
  finally show ?thesis .
qed

lemma burst_by_addJob: "fold burstAdd [0..<k] newQueueManager = burstOf k"
proof (induction k)
  case 0
  then show ?case by (simp add: burstOf_def newQueueManager_def)
next
  case (Suc k)
  then show ?case by (simp add: burstOf_Suc)
qed

lemma afterBurst_eq:
  "afterBurst = burstStarted\<lparr>
       heap := (heap burst)(0 := (burstJob 0)\<lparr>status := Completed, attempts := 1\<rparr>),
       queue := rev [1..<101]\<rparr>"
proof -
  define b1 where "b1 = burstStarted\<lparr>heap := (heap burst)(0 := (burstJob 0)\<lparr>status := Processing, attempts := 1\<rparr>)\<rparr>"
  define b2 where "b2 = burstStarted\<lparr>heap := (heap burst)(0 := (burstJob 0)\<lparr>status := Completed, attempts := 1\<rparr>)\<rparr>"
  have sel: "processQueue_select 101 burstStarted = (b1, Some 0)"
    by (simp add: burst_select b1_def)
  have ex: "executeJob healthy 101 0 b1 = (b1, executeMainPostingJob healthy)"
    by (simp add: executeJob_def b1_def burstJob_def)
  have ok: "successful (executeMainPostingJob healthy)"
    by (simp add: executeMainPostingJob_def healthy_def createApiResponse_def)
  have st: "processQueue_settle 102 0 (executeMainPostingJob healthy) b1 = cleanupOldJobs 102 b2"
    by (simp add: processQueue_settle_def ok b1_def b2_def burstJob_def)
  have q2: "queue b2 = [0..<101]" by (simp add: b2_def burstStarted_def burst_def burstOf_def)
  have c2: "\<forall>r < 101. createdAt (heap b2 r) = int r"
    by (simp add: b2_def burst_def burstOf_def burstJob_def)
  have k2: "\<forall>r < 101. retained 102 (heap b2 r)"
    by (simp add: b2_def burst_def burstOf_def burstJob_def retained_def)
  have cq: "queue (cleanupOldJobs 102 b2) = rev [1..<101]"
    by (rule cleanup_newest_first[OF q2 c2 k2])
  have cl: "cleanupOldJobs 102 b2 = b2\<lparr>queue := rev [1..<101]\<rparr>"
    using cq by (simp add: cleanupOldJobs_def Let_def q2 split: if_splits)
  have "afterBurst = processQueue healthy 101 102 burstStarted"
    by (simp add: afterBurst_def start_def burstStarted_def burst_def burstOf_def)
  also have "\<dots> = b2\<lparr>queue := rev [1..<101]\<rparr>"
    by (simp add: processQueue_def sel ex st cl)
  finally show ?thesis by (simp add: b2_def)
qed

text \<open>
  Claim C1 at the input where the source breaks it. The burst is built by 101 calls of
  \<open>addJob\<close> and is in weight order. The first call of \<open>processQueue\<close> completes the
  oldest high-priority job; its retention pass finds 101 jobs to keep, sorts them newest
  first and keeps 100. The next call of \<open>processQueue\<close> then selects job 100, the newest
  low-priority job, although job 1 (high priority) and job 99 (low priority, enqueued
  earlier) are pending and eligible.
\<close>

theorem low_job_selected_before_high:
  "burst = fold burstAdd [0..<101] newQueueManager
   \<and> jobs_of burst = map burstJob [0..<101]
   \<and> queue afterBurst = rev [1..<101]
   \<and> snd (processQueue_select 103 afterBurst) = Some 100
   \<and> priority (heap afterBurst 100) = Low
   \<and> 1 \<in> set (queue afterBurst)
   \<and> eligible 103 (heap afterBurst 1)
   \<and> priority (heap afterBurst 1) = High
   \<and> 99 \<in> set (queue afterBurst)
   \<and> eligible 103 (heap afterBurst 99)
   \<and> priority (heap afterBurst 99) = Low
   \<and> createdAt (heap afterBurst 99) < createdAt (heap afterBurst 100)"
proof -
  have a: "burst = fold burstAdd [0..<101] newQueueManager"
    by (simp add: burst_def burst_by_addJob del: upt_rec_numeral)
  have b: "jobs_of burst = map burstJob [0..<101]"
    by (simp add: jobs_of_def burst_def burstOf_def del: upt_rec_numeral)
  have q: "queue afterBurst = rev [1..<101]" "isProcessing afterBurst"
    by (simp_all add: afterBurst_eq burstStarted_def)
  have hd: "rev [Suc 0..<101] = 100 # rev [Suc 0..<100]"
    using upt_Suc_append[of "Suc 0" 100] by (simp del: upt_rec_numeral upt_Suc)
  have h: "heap afterBurst 100 = burstJob 100" "heap afterBurst 1 = burstJob 1"
    "heap afterBurst 99 = burstJob 99"
    by (simp_all add: afterBurst_eq burstStarted_def burst_def burstOf_def)
  have sel: "snd (processQueue_select 103 afterBurst) = Some 100"
    unfolding processQueue_select_def
    by (simp add: q hd h del: upt_rec_numeral) (simp add: burstJob_def eligible_def)
  have m: "1 \<in> set (queue afterBurst)" "99 \<in> set (queue afterBurst)"
    by (simp_all add: q del: upt_rec_numeral)
  have p: "priority (heap afterBurst 100) = Low" "eligible 103 (heap afterBurst 1)"
    "priority (heap afterBurst 1) = High" "eligible 103 (heap afterBurst 99)"
    "priority (heap afterBurst 99) = Low"
    "createdAt (heap afterBurst 99) < createdAt (heap afterBurst 100)"
    by (simp_all only: h) (simp_all add: burstJob_def eligible_def)
  show ?thesis
    using a b q(1) sel m p by blast
qed

theorem low_job_selected_before_high_witness:
  "snd (processQueue_select 103 afterBurst) = Some 100
   \<and> priority (heap afterBurst 100) = Low
   \<and> eligible 103 (heap afterBurst 1)
   \<and> priority (heap afterBurst 1) = High"
  using low_job_selected_before_high by blast

section \<open>The number of jobs in the queue\<close>

lemma burst_reachable: "reachable \<lparr>mgr = burstOf k, inflight = []\<rparr>"
proof (induction k)
  case 0
  have "burstOf 0 = newQueueManager" by (simp add: burstOf_def newQueueManager_def)
  then show ?case using reachable.init by simp
next
  case (Suc k)
  have "reachable (\<lparr>mgr = burstOf k, inflight = []\<rparr>\<lparr>mgr := fst (addJob (jobName k) (int k) ''main-posting''
          (burstData k) (mgr \<lparr>mgr = burstOf k, inflight = []\<rparr>))\<rparr>)"
    by (rule reachable.enqueue[OF Suc])
  then show ?case using burstOf_Suc[of k] by (simp add: burstAdd_def)
qed

lemma select_stopped: "\<not> isProcessing s \<Longrightarrow> processQueue_select now s = (s, None)"
  by (simp add: processQueue_select_def)

lemma select_none_eligible:
  assumes "\<forall>r \<in> set (queue s). \<not> eligible now (heap s r)"
  shows "processQueue_select now s = (s, None)"
proof -
  have "find (\<lambda>r. eligible now (heap s r)) (queue s) = None"
    using assms by (simp add: find_None_iff)
  then show ?thesis by (simp add: processQueue_select_def)
qed

lemma select_None_same:
  "snd (processQueue_select now s) = None \<Longrightarrow> processQueue_select now s = (s, None)"
  by (auto simp: processQueue_select_def split: if_splits option.splits)

lemma processQueue_settled_bound:
  assumes sel: "snd (processQueue_select now s) = Some r"
  shows "totalJobs (getQueueStatus (processQueue ext now fin s)) \<le> 100"
proof -
  obtain s1 where p: "processQueue_select now s = (s1, Some r)"
    using sel by (cases "processQueue_select now s") auto
  obtain s2 res where e: "executeJob ext now r s1 = (s2, res)" by (cases "executeJob ext now r s1")
  show ?thesis
    by (simp add: processQueue_def p e processQueue_settle_def getQueueStatus_def cleanupOldJobs_length)
qed

lemma burst_count: "totalJobs (getQueueStatus burst) = 101"
  by (simp add: getQueueStatus_def burst_def burstOf_def)

lemma burst_stopped: "\<not> isProcessing burst"
  by (simp add: burst_def burstOf_def)

text \<open>
  Claim C7, as the source has it. Right after every retention pass \<open>getQueueStatus\<close>
  reports at most 100 jobs, and a retention pass ends every call of \<open>processQueue\<close> that
  has dispatched a job and returns: the handler of the job has succeeded, or
  \<open>handleJobFailure\<close> has not thrown. Nothing else bounds the count: \<open>addJob\<close> adds one
  job and runs no retention pass, and a call of \<open>processQueue\<close> that dispatches no job
  changes nothing, which is every call while the executor is stopped and every call that
  finds no eligible job.
\<close>

theorem retention_bound:
  "totalJobs (getQueueStatus (cleanupOldJobs now s)) \<le> 100
   \<and> (snd (processQueue_select now s) = Some r
        \<and> (successful (snd (executeJob ext now r (fst (processQueue_select now s))))
             \<or> \<not> handleJobFailure_throws fin r (fst (executeJob ext now r (fst (processQueue_select now s)))))
        \<longrightarrow> totalJobs (getQueueStatus (processQueue ext now fin s)) \<le> 100)
   \<and> totalJobs (getQueueStatus (fst (addJob gid now ty jobData s))) = Suc (totalJobs (getQueueStatus s))
   \<and> (snd (processQueue_select now s) = None \<longrightarrow> processQueue ext now fin s = s)
   \<and> (\<not> isProcessing s \<longrightarrow> snd (processQueue_select now s) = None)
   \<and> ((\<forall>q \<in> set (queue s). \<not> eligible now (heap s q)) \<longrightarrow> snd (processQueue_select now s) = None)"
proof (intro conjI impI)
  show "totalJobs (getQueueStatus (cleanupOldJobs now s)) \<le> 100"
    by (simp add: getQueueStatus_def cleanupOldJobs_length)
next
  assume "snd (processQueue_select now s) = Some r
        \<and> (successful (snd (executeJob ext now r (fst (processQueue_select now s))))
             \<or> \<not> handleJobFailure_throws fin r (fst (executeJob ext now r (fst (processQueue_select now s)))))"
  then show "totalJobs (getQueueStatus (processQueue ext now fin s)) \<le> 100"
    using processQueue_settled_bound by blast
next
  show "totalJobs (getQueueStatus (fst (addJob gid now ty jobData s))) = Suc (totalJobs (getQueueStatus s))"
    by (simp add: addJob_def Let_def getQueueStatus_def)
next
  assume "snd (processQueue_select now s) = None"
  then show "processQueue ext now fin s = s"
    using select_None_same[of now s] by (simp add: processQueue_def)
next
  assume "\<not> isProcessing s"
  then show "snd (processQueue_select now s) = None" by (simp add: select_stopped)
next
  assume "\<forall>q \<in> set (queue s). \<not> eligible now (heap s q)"
  then show "snd (processQueue_select now s) = None" by (simp add: select_none_eligible)
qed

theorem retention_bound_witness:
  "totalJobs (getQueueStatus burstStarted) = 101
   \<and> snd (processQueue_select 101 burstStarted) = Some 0
   \<and> totalJobs (getQueueStatus (processQueue healthy 101 102 burstStarted)) \<le> 100
   \<and> totalJobs (getQueueStatus (processQueue failing 101 102 burstStarted)) \<le> 100
   \<and> processQueue healthy 200 300 burst = burst
   \<and> processQueue healthy 100000 100001 unknown1 = unknown1
   \<and> totalJobs (getQueueStatus (fst (addJob (jobName 101) 101 ''main-posting'' (burstData 101) burst))) = 102"
proof -
  have c: "totalJobs (getQueueStatus burstStarted) = 101"
    by (simp add: getQueueStatus_def burstStarted_def burst_def burstOf_def)
  have sel: "snd (processQueue_select 101 burstStarted) = Some 0" by (simp add: burst_select)
  have ok: "successful (snd (executeJob healthy 101 0 (fst (processQueue_select 101 burstStarted))))"
    by (simp add: burst_select executeJob_def burstJob_def executeMainPostingJob_def healthy_def
          createApiResponse_def)
  have returns: "\<not> handleJobFailure_throws 102 0
                    (fst (executeJob failing 101 0 (fst (processQueue_select 101 burstStarted))))"
    by (simp add: burst_select executeJob_def burstJob_def handleJobFailure_throws_def validDate_def)
  have idle: "\<not> isProcessing burst" by (rule burst_stopped)
  have backoff: "\<forall>q \<in> set (queue unknown1). \<not> eligible 100000 (heap unknown1 q)"
    by (simp add: unknown1_eq unknownQueued_eq eligible_def)
  show ?thesis
    using retention_bound[of 101 burstStarted 0 healthy 102]
      retention_bound[of 101 burstStarted 0 failing 102]
      retention_bound[of 200 burst 0 healthy 300]
      retention_bound[of 100000 unknown1 0 healthy 100001]
      retention_bound[of 101 burst 0 healthy 300 "jobName 101" "''main-posting''" "burstData 101"]
      c sel ok returns idle backoff burst_count
    by simp
qed

text \<open>
  Claim C7 as stated fails: 101 calls of \<open>addJob\<close> on a queue manager that has not been
  started leave 101 jobs in the queue with no call of \<open>processQueue\<close> under way, and a
  call of \<open>processQueue\<close> changes nothing there, so that the count stays at 101.
\<close>

theorem count_above_cap_counterexample:
  "reachable \<lparr>mgr = burst, inflight = []\<rparr>
   \<and> totalJobs (getQueueStatus burst) = 101
   \<and> processQueue healthy 200 300 burst = burst
   \<and> totalJobs (getQueueStatus (processQueue healthy 200 300 burst)) = 101"
proof -
  have r: "reachable \<lparr>mgr = burst, inflight = []\<rparr>"
    unfolding burst_def by (rule burst_reachable)
  have i: "processQueue healthy 200 300 burst = burst"
    using select_stopped[OF burst_stopped, of 200] by (simp add: processQueue_def)
  show ?thesis using r i burst_count by simp
qed

end
